theory Spec2Isabelle
  imports Complex_Main "HOL-Library.Word" "HOL-Library.Char_ord"
begin

section \<open>Strings\<close>

text \<open>
  Text handled by the module (user names, distinguished names, attribute values) is modelled
  as \<^typ>\<open>string\<close>, one \<^typ>\<open>char\<close> per code unit below 256. The password pools of
  \<open>createPassword\<close> contain U+207A, so generated passwords are lists of 16-bit code units,
  which is what a JavaScript string is and what its \<open>length\<close> counts.
\<close>

type_synonym unit16 = "16 word"
type_synonym ustring = "unit16 list"

definition units_of :: "string \<Rightarrow> ustring" where
  "units_of s = map (\<lambda>c. of_nat (of_char c)) s"

text \<open>The text a template literal produces for the value \<open>undefined\<close>.\<close>

definition undefined_units :: ustring where
  "undefined_units = [0x75, 0x6E, 0x64, 0x65, 0x66, 0x69, 0x6E, 0x65, 0x64]"

section \<open>Password generation\<close>

text \<open>
  \<open>_getRandomIndex(max)\<close> is \<open>Math.ceil(Math.random() * max)\<close>. A draw of
  \<open>Math.random()\<close> is a number \<open>r\<close> with \<open>0 \<le> r < 1\<close>; the product is a double, so it is
  the exact product passed through the rounding \<open>fl\<close> of the arithmetic, a parameter here.
\<close>

definition getRandomIndex :: "(real \<Rightarrow> real) \<Rightarrow> real \<Rightarrow> int \<Rightarrow> int" where
  "getRandomIndex fl r m = \<lceil>fl (r * of_int m)\<rceil>"

text \<open>
  \<open>`${result}${source[index]}`\<close>: an index outside the string reads \<open>undefined\<close>, which the
  template renders as the nine units of that word.
\<close>

definition char_at_text :: "ustring \<Rightarrow> int \<Rightarrow> ustring" where
  "char_at_text source i =
     (if 0 \<le> i \<and> i < int (length source) then [source ! nat i] else undefined_units)"

text \<open>
  The loop of \<open>_getRandomString(source, length)\<close>. The random source is the sequence \<open>rnd\<close>
  of draws and \<open>p\<close> counts the draws consumed so far; the loop returns the result and the
  new count.
\<close>

function getRandomString_loop ::
  "(real \<Rightarrow> real) \<Rightarrow> (nat \<Rightarrow> real) \<Rightarrow> ustring \<Rightarrow> nat \<Rightarrow> nat \<Rightarrow> ustring \<Rightarrow> nat \<Rightarrow> ustring \<times> nat"
where
  "getRandomString_loop fl rnd source len i result p =
     (if i < len then
        let index = getRandomIndex fl (rnd p) (int (length source) - 1)
        in getRandomString_loop fl rnd source len (i + 1) (result @ char_at_text source index) (p + 1)
      else (result, p))"
  by pat_completeness auto
termination
  by (relation "measure (\<lambda>(fl, rnd, source, len, i, result, p). len - i)") auto

definition getRandomString ::
  "(real \<Rightarrow> real) \<Rightarrow> (nat \<Rightarrow> real) \<Rightarrow> ustring \<Rightarrow> nat \<Rightarrow> nat \<Rightarrow> ustring \<times> nat" where
  "getRandomString fl rnd source len p = getRandomString_loop fl rnd source len 0 [] p"

text \<open>
  \<open>toUpperCase\<close> on the units that reach it here: the ASCII letters and U+00F1 (the pool
  \<open>letters\<close>, and the word \<open>undefined\<close>). Every other unit is left as it is.
\<close>

definition upper_unit :: "unit16 \<Rightarrow> unit16" where
  "upper_unit c =
     (if 0x61 \<le> c \<and> c \<le> 0x7A then c - 0x20 else if c = 0xF1 then 0xD1 else c)"

definition toUpperCase :: "ustring \<Rightarrow> ustring" where
  "toUpperCase s = map upper_unit s"

definition specials :: ustring where
  "specials = [0x21, 0xB7, 0x24, 0x25, 0x26, 0x2F, 0x28, 0x29, 0x3D, 0x3F, 0xBF, 0x5F, 0x2D,
               0x7B, 0x7D, 0x2A, 0x207A]"

definition digits :: ustring where
  "digits = [0x30, 0x31, 0x32, 0x33, 0x34, 0x35, 0x36, 0x37, 0x38, 0x39]"

definition letters :: ustring where
  "letters = [0x71, 0x77, 0x65, 0x72, 0x74, 0x79, 0x75, 0x69, 0x6F, 0x70, 0x61, 0x73, 0x64,
              0x66, 0x67, 0x68, 0x6A, 0x6B, 0x6C, 0xF1, 0x7A, 0x78, 0x63, 0x76, 0x62, 0x6E, 0x6D]"

definition createPassword_from :: "(real \<Rightarrow> real) \<Rightarrow> (nat \<Rightarrow> real) \<Rightarrow> nat \<Rightarrow> ustring \<times> nat" where
  "createPassword_from fl rnd p0 =
     (let (sp, p1) = getRandomString fl rnd specials 1 p0;
          (dig, p2) = getRandomString fl rnd digits 3 p1;
          (upp0, p3) = getRandomString fl rnd letters 2 p2;
          upp = toUpperCase upp0;
          (low, p4) = getRandomString fl rnd letters 3 p3
      in (sp @ dig @ upp @ low, p4))"

definition createPassword :: "(real \<Rightarrow> real) \<Rightarrow> (nat \<Rightarrow> real) \<Rightarrow> ustring" where
  "createPassword fl rnd = fst (createPassword_from fl rnd 0)"

text \<open>One character of the generated password: the unit read at the index of draw \<open>p\<close>.\<close>

definition pick :: "(real \<Rightarrow> real) \<Rightarrow> (nat \<Rightarrow> real) \<Rightarrow> ustring \<Rightarrow> nat \<Rightarrow> ustring" where
  "pick fl rnd source p = char_at_text source (getRandomIndex fl (rnd p) (int (length source) - 1))"

section \<open>Whitespace and \<open>trim\<close>\<close>

text \<open>
  The white space \<open>String.prototype.trim\<close> removes, as far as it is below 256: tab, line
  feed, vertical tab, form feed, carriage return, space and the no-break space.
\<close>

definition is_js_space :: "char \<Rightarrow> bool" where
  "is_js_space c = (of_char c \<in> {9, 10, 11, 12, 13, 32, 160 :: nat})"

definition js_trim :: "string \<Rightarrow> string" where
  "js_trim s = rev (dropWhile is_js_space (rev (dropWhile is_js_space s)))"

section \<open>Regular expressions\<close>

text \<open>
  The fragment of JavaScript regular expressions \<open>isCorrectEmail\<close> uses: character classes,
  concatenation, \<open>+\<close> and the bounded repetition \<open>{m,n}\<close>, between \<open>^\<close> and \<open>$\<close>. Without
  the \<open>m\<close> flag the anchors are the two ends of the input, so \<open>test\<close> succeeds exactly when
  the whole string is matched.
\<close>

datatype rexp =
    Fail
  | Eps
  | Class "char \<Rightarrow> bool"
  | Alt rexp rexp
  | Cat rexp rexp
  | Star rexp

fun nullable :: "rexp \<Rightarrow> bool" where
  "nullable Fail = False"
| "nullable Eps = True"
| "nullable (Class P) = False"
| "nullable (Alt r s) = (nullable r \<or> nullable s)"
| "nullable (Cat r s) = (nullable r \<and> nullable s)"
| "nullable (Star r) = True"

fun deriv :: "char \<Rightarrow> rexp \<Rightarrow> rexp" where
  "deriv c Fail = Fail"
| "deriv c Eps = Fail"
| "deriv c (Class P) = (if P c then Eps else Fail)"
| "deriv c (Alt r s) = Alt (deriv c r) (deriv c s)"
| "deriv c (Cat r s) =
     (if nullable r then Alt (Cat (deriv c r) s) (deriv c s) else Cat (deriv c r) s)"
| "deriv c (Star r) = Cat (deriv c r) (Star r)"

fun regex_test :: "rexp \<Rightarrow> string \<Rightarrow> bool" where
  "regex_test r [] = nullable r"
| "regex_test r (c # cs) = regex_test (deriv c r) cs"

text \<open>\<open>r+\<close>, \<open>r{n}\<close>, \<open>r{0,n}\<close> and \<open>r{m,n}\<close>.\<close>

definition plus_re :: "rexp \<Rightarrow> rexp" where
  "plus_re r = Cat r (Star r)"

fun exactly :: "nat \<Rightarrow> rexp \<Rightarrow> rexp" where
  "exactly 0 r = Eps"
| "exactly (Suc n) r = Cat r (exactly n r)"

fun at_most :: "nat \<Rightarrow> rexp \<Rightarrow> rexp" where
  "at_most 0 r = Eps"
| "at_most (Suc n) r = Alt Eps (Cat r (at_most n r))"

definition between :: "nat \<Rightarrow> nat \<Rightarrow> rexp \<Rightarrow> rexp" where
  "between m n r = Cat (exactly m r) (at_most (n - m) r)"

section \<open>\<open>isCorrectEmail\<close>\<close>

text \<open>The class \<open>[a-zA-Z0-9_\-\.]\<close>.\<close>

definition name_char :: "char \<Rightarrow> bool" where
  "name_char c =
     ((CHR ''a'' \<le> c \<and> c \<le> CHR ''z'') \<or> (CHR ''A'' \<le> c \<and> c \<le> CHR ''Z'') \<or>
      (CHR ''0'' \<le> c \<and> c \<le> CHR ''9'') \<or> c = CHR ''_'' \<or> c = CHR ''-'' \<or> c = CHR ''.'')"

text \<open>The class \<open>[a-zA-Z]\<close>.\<close>

definition letter_char :: "char \<Rightarrow> bool" where
  "letter_char c = ((CHR ''a'' \<le> c \<and> c \<le> CHR ''z'') \<or> (CHR ''A'' \<le> c \<and> c \<le> CHR ''Z''))"

text \<open>\<open>/^[a-zA-Z0-9_\-\.]+@[a-zA-Z0-9_\-\.]+\.[a-zA-Z]{2,5}$/\<close>\<close>

definition email_reg :: rexp where
  "email_reg =
     Cat (plus_re (Class name_char))
       (Cat (Class (\<lambda>c. c = CHR ''@''))
          (Cat (plus_re (Class name_char))
             (Cat (Class (\<lambda>c. c = CHR ''.''))
                (between 2 5 (Class letter_char)))))"

text \<open>
  The argument is \<open>None\<close> for \<open>undefined\<close> (a missing \<open>mail\<close> attribute). \<open>!email\<close> holds
  for \<open>undefined\<close> and for the empty string.
\<close>

definition isCorrectEmail :: "string option \<Rightarrow> bool" where
  "isCorrectEmail email =
     (case email of
        None \<Rightarrow> False
      | Some e \<Rightarrow>
          if e = [] \<or> length (js_trim e) = 0 then False
          else regex_test email_reg e)"

section \<open>\<open>normalizeLocation\<close>\<close>

definition endsWith :: "string \<Rightarrow> string \<Rightarrow> bool" where
  "endsWith s suffix = (length suffix \<le> length s \<and> drop (length s - length suffix) s = suffix)"

definition normalizeLocation :: "string option \<Rightarrow> string" where
  "normalizeLocation userLocation =
     (case userLocation of
        None \<Rightarrow> ''CN=Users,''
      | Some l \<Rightarrow>
          if l = [] \<or> length (js_trim l) = 0 then ''CN=Users,''
          else if \<not> endsWith l '','' then l @ '',''
          else l)"

section \<open>What a regular expression matches\<close>

text \<open>
  The set of strings an expression denotes, against which the matcher is verified, and the
  shape of the strings \<open>email_reg\<close> accepts: a non-empty local part, \<open>@\<close>, a non-empty
  domain label, a dot, and two to five letters.
\<close>

inductive_set rep_closure :: "string set \<Rightarrow> string set" for A :: "string set" where
  rc_nil: "[] \<in> rep_closure A"
| rc_more: "u \<in> A \<Longrightarrow> v \<in> rep_closure A \<Longrightarrow> u @ v \<in> rep_closure A"

fun denotes :: "rexp \<Rightarrow> string set" where
  "denotes Fail = {}"
| "denotes Eps = {[]}"
| "denotes (Class P) = {[c] | c. P c}"
| "denotes (Alt r s) = denotes r \<union> denotes s"
| "denotes (Cat r s) = {u @ v | u v. u \<in> denotes r \<and> v \<in> denotes s}"
| "denotes (Star r) = rep_closure (denotes r)"

definition email_shape :: "string \<Rightarrow> bool" where
  "email_shape s \<longleftrightarrow>
     (\<exists>l d t. s = l @ ''@'' @ d @ ''.'' @ t \<and>
        l \<noteq> [] \<and> (\<forall>c\<in>set l. name_char c) \<and>
        d \<noteq> [] \<and> (\<forall>c\<in>set d. name_char c) \<and>
        2 \<le> length t \<and> length t \<le> 5 \<and> (\<forall>c\<in>set t. letter_char c))"

section \<open>String operations of the runtime\<close>

text \<open>
  \<open>String(x)\<close> and template interpolation of a value that may be \<open>undefined\<close>
  (\<open>None\<close>).
\<close>

definition text_of :: "string option \<Rightarrow> string" where
  "text_of x = (case x of None \<Rightarrow> ''undefined'' | Some s \<Rightarrow> s)"

text \<open>\<open>xs[0]\<close>: \<open>undefined\<close> on an empty array.\<close>

definition js_first :: "'a list \<Rightarrow> 'a option" where
  "js_first xs = (case xs of [] \<Rightarrow> None | x # _ \<Rightarrow> Some x)"

text \<open>
  \<open>s.replace(/pat/g, rep)\<close> for a literal pattern: every occurrence, found from left to
  right, the search resuming after the replaced text. The patterns of this module are not
  empty.
\<close>

function replace_all :: "string \<Rightarrow> string \<Rightarrow> string \<Rightarrow> string" where
  "replace_all pat rep [] = []"
| "replace_all pat rep (c # cs) =
     (if pat \<noteq> [] \<and> take (length pat) (c # cs) = pat
      then rep @ replace_all pat rep (drop (length pat) (c # cs))
      else c # replace_all pat rep cs)"
  by pat_completeness auto
termination
  by (relation "measure (\<lambda>(pat, rep, s). length s)") auto

text \<open>
  \<open>s.split(sep)\<close> for a non-empty separator; \<open>cur\<close> is the piece being read. The result
  always has at least one piece.
\<close>

function split_from :: "string \<Rightarrow> string \<Rightarrow> string \<Rightarrow> string list" where
  "split_from sep cur [] = [cur]"
| "split_from sep cur (c # cs) =
     (if sep \<noteq> [] \<and> take (length sep) (c # cs) = sep
      then cur # split_from sep [] (drop (length sep) (c # cs))
      else split_from sep (cur @ [c]) cs)"
  by pat_completeness auto
termination
  by (relation "measure (\<lambda>(sep, cur, s). length s)") auto

definition js_split :: "string \<Rightarrow> string \<Rightarrow> string list" where
  "js_split sep s = split_from sep [] s"

fun js_join :: "string \<Rightarrow> string list \<Rightarrow> string" where
  "js_join sep [] = []"
| "js_join sep [x] = x"
| "js_join sep (x # y # ys) = x @ sep @ js_join sep (y # ys)"

text \<open>\<open>s.indexOf(sub) > -1\<close>\<close>

fun contains :: "string \<Rightarrow> string \<Rightarrow> bool" where
  "contains [] sub = (sub = [])"
| "contains (c # cs) sub = (take (length sub) (c # cs) = sub \<or> contains cs sub)"

text \<open>
  Decimal digits of a number that is not negative, and \<open>String(n)\<close> for a number \<open>n\<close> that is a safe
  integer, one of magnitude at most \<open>2^53\<close>: there every integer is a double and is printed
  as its plain decimal digits. Such a number is a 54-bit word read as a signed value, so
  the numbers JavaScript prints in exponent notation (from \<open>1e21\<close>) are not of this type.
\<close>

function dec_text :: "int \<Rightarrow> string" where
  "dec_text n =
     (if n < 10 then [''0123456789'' ! nat n]
      else dec_text (n div 10) @ [''0123456789'' ! nat (n mod 10)])"
  by pat_completeness auto
termination
  by (relation "measure nat") auto

type_synonym safe_int = "54 word"

definition num_text :: "safe_int \<Rightarrow> string" where
  "num_text n = (if sint n < 0 then ''-'' @ dec_text (- sint n) else dec_text (sint n))"

section \<open>Data model\<close>

text \<open>
  A user record is a sparse mapping from attribute names to values, kept in the order the
  directory delivered it; the empty record \<open>{}\<close> is the empty list. \<open>Object.keys(r).length < 1\<close>
  is \<open>r = []\<close> and \<open>r.dn\<close> is \<open>map_of r ''dn''\<close> (\<open>None\<close> for \<open>undefined\<close>).
\<close>

type_synonym urecord = "(string \<times> string) list"

text \<open>
  A value of an attribute write or of an option of \<open>updateUser\<close>: a string, a boolean, a
  safe integer, or a value of any other kind (\<open>null\<close>, a fraction, a number beyond the safe
  integers, an object), which is given by the text \<open>String\<close> makes of it. The module only
  passes a value on, compares it with \<open>false\<close> or \<open>undefined\<close>, or uses it as text.
\<close>

datatype pval = PStr string | PBool bool | PNum safe_int | POther string

fun pval_text :: "pval \<Rightarrow> string" where
  "pval_text (PStr s) = s"
| "pval_text (PBool b) = (if b then ''true'' else ''false'')"
| "pval_text (PNum n) = num_text n"
| "pval_text (POther t) = t"

text \<open>One attribute write \<open>{[key]: value}\<close>.\<close>

type_synonym operation = "string \<times> pval"

text \<open>The object given to \<open>addUser\<close>; \<open>None\<close> is a missing property.\<close>

record user_object =
  mail :: "string option"
  sAMAccountName :: "string option"
  userPassword :: "string option"
  objectClass :: "string list option"
  other :: "(string \<times> pval) list"

text \<open>
  What a promise is rejected with: a plain string, or an object (an error of the directory
  client or one of the structured errors built here) with the properties this module reads
  or writes.
\<close>

record err_obj =
  message :: "string option"
  httpStatus :: "nat option"
  error_flag :: bool
  lde_message :: "string option"
  stack :: "string option"

datatype reason = Text string | Obj err_obj

definition plain_error :: "string \<Rightarrow> err_obj" where
  "plain_error m = \<lparr>message = Some m, httpStatus = None, error_flag = False,
                     lde_message = None, stack = None\<rparr>"

text \<open>\<open>err.message\<close>: a string has no such property.\<close>

fun reason_message :: "reason \<Rightarrow> string option" where
  "reason_message (Text t) = None"
| "reason_message (Obj e) = message e"

text \<open>The \<open>TypeError\<close> raised by reading a property of \<open>undefined\<close>.\<close>

definition type_error :: reason where
  "type_error = Obj (plain_error ''TypeError'')"

datatype 'a promise = Resolved 'a | Rejected reason

text \<open>The answer of a directory operation other than a search.\<close>

type_synonym reply = string

text \<open>The second argument the client hands to the callback of \<open>authenticate\<close>.\<close>

datatype auth_value = AUndefined | ABool bool | AObj "(string \<times> string) list"

datatype auth_outcome = AuthResolved auth_value | AuthRejected reason | AuthThrew

text \<open>Every request sent to the directory client, in the order it was sent.\<close>

datatype call =
    Find string
  | Replace string operation
  | ModifyDN "string option" string
  | AddObject string string user_object
  | Authenticate string string

text \<open>Options of the result shaper; they are passed through unread.\<close>

type_synonym shaping = "(string \<times> string) list"

text \<open>
  Everything the module is given from outside this file. The configuration is \<open>domain\<close> and
  \<open>baseDN\<close>. \<open>parseLocation\<close>, \<open>encodePassword\<close>, \<open>ssha_create\<close> and \<open>processResults\<close> are the
  required helpers, taken as they come. The remaining fields are the directory: each
  operation answers from the requests made before it and its own arguments, so that any
  directory, with any contents and any failures, is an instance.
\<close>

record env =
  domain :: string
  baseDN :: string
  parseLocation :: "string \<Rightarrow> string"
  encodePassword :: "ustring \<Rightarrow> string"
  ssha_create :: "ustring \<Rightarrow> string"
  processResults :: "shaping option \<Rightarrow> urecord list \<Rightarrow> urecord list"
  ad_find :: "call list \<Rightarrow> string \<Rightarrow> reason + urecord list option"
  ad_authenticate :: "call list \<Rightarrow> string \<Rightarrow> string \<Rightarrow> err_obj option \<times> auth_value"
  ad_replace :: "call list \<Rightarrow> string \<Rightarrow> operation \<Rightarrow> reason + reply"
  ad_modifyDN :: "call list \<Rightarrow> string option \<Rightarrow> string \<Rightarrow> reason + reply"
  ad_addObject :: "call list \<Rightarrow> string \<Rightarrow> string \<Rightarrow> user_object \<Rightarrow> reason + reply"

text \<open>
  The mutable state: the user cache \<open>this._cache.users\<close> and the requests sent so far.
\<close>

record state =
  users :: "string \<rightharpoonup> urecord"
  calls :: "call list"

definition sent :: "call \<Rightarrow> state \<Rightarrow> state" where
  "sent c s = s\<lparr>calls := calls s @ [c]\<rparr>"

text \<open>\<open>delete this._cache.users[key]\<close>\<close>

definition cache_delete :: "string \<Rightarrow> state \<Rightarrow> state" where
  "cache_delete key s = s\<lparr>users := (users s)(key := None)\<rparr>"

text \<open>
  Modelled from the spec: \<open>this._cache.get('users', key)\<close> and
  \<open>this._cache.set('users', key, value)\<close>, methods of the cache object built outside this
  file. The spec's cache entry is keyed by name, holds a record or the empty record, and
  has no expiry: \<open>get\<close> reads \<open>users[key]\<close>, \<open>set\<close> writes it.
\<close>

definition cache_get :: "state \<Rightarrow> string \<Rightarrow> urecord option" where
  "cache_get s key = users s key"

definition cache_set :: "string \<Rightarrow> urecord \<Rightarrow> state \<Rightarrow> state" where
  "cache_set key v s = s\<lparr>users := (users s)(key \<mapsto> v)\<rparr>"

section \<open>Directory operations defined outside this file\<close>

text \<open>
  Modelled from the spec: \<open>_userReplaceOperation(userName, operation)\<close>, the
  attribute-replace operation. It sends the write for the user; a failure rejects with the
  directory's error; after a successful write the cache entry of the user name is removed.
\<close>

definition userReplaceOperation :: "env \<Rightarrow> state \<Rightarrow> string \<Rightarrow> operation \<Rightarrow> reply promise \<times> state" where
  "userReplaceOperation E s userName operation =
     (let s1 = sent (Replace userName operation) s
      in case ad_replace E (calls s) userName operation of
           Inl err \<Rightarrow> (Rejected err, s1)
         | Inr res \<Rightarrow> (Resolved res, cache_delete userName s1))"

text \<open>
  Modelled from the spec: \<open>_modifyDN(oldDN, newDN)\<close>, the DN-rename operation of the
  directory client. It sends the request and settles with the directory's answer.
\<close>

definition modifyDN :: "env \<Rightarrow> state \<Rightarrow> string option \<Rightarrow> string \<Rightarrow> reply promise \<times> state" where
  "modifyDN E s oldDN newDN =
     (let s1 = sent (ModifyDN oldDN newDN) s
      in case ad_modifyDN E (calls s) oldDN newDN of
           Inl err \<Rightarrow> (Rejected err, s1)
         | Inr res \<Rightarrow> (Resolved res, s1))"

text \<open>
  Modelled from the spec: \<open>_addObject(name, location, object)\<close>, the object-create
  operation of the directory client.
\<close>

definition addObject :: "env \<Rightarrow> state \<Rightarrow> string \<Rightarrow> string \<Rightarrow> user_object \<Rightarrow> reply promise \<times> state" where
  "addObject E s name location object =
     (let s1 = sent (AddObject name location object) s
      in case ad_addObject E (calls s) name location object of
           Inl err \<Rightarrow> (Rejected err, s1)
         | Inr res \<Rightarrow> (Resolved res, s1))"

section \<open>The user operations\<close>

text \<open>
  Every operation takes the environment and the state and returns how its promise settles
  together with the new state. The callbacks of the directory client are taken to be called
  once, with the answer.
\<close>

subsection \<open>\<open>findUser\<close>\<close>

text \<open>
  The cache is read under the name as given; only after a miss is the name cut at \<open>@\<close>, and
  the result is stored under the cut name. A stored record, the empty one included, is an
  object and therefore counts as a hit. Of the search parameters only the filter varies,
  so a request is recorded by its filter.
\<close>

definition findUser :: "env \<Rightarrow> state \<Rightarrow> string \<Rightarrow> shaping option \<Rightarrow> urecord option promise \<times> state" where
  "findUser E s userName opts =
     (case cache_get s userName of
        Some cached \<Rightarrow> (Resolved (js_first (processResults E opts [cached])), s)
      | None \<Rightarrow>
          (let userName' = (if CHR ''@'' \<in> set userName
                           then text_of (js_first (js_split ''@'' userName)) else userName);
              filter = ''(|(userPrincipalName='' @ userName' @ ''@'' @ domain E @
                       '')(sAMAccountName='' @ userName' @ ''))'';
              s1 = sent (Find filter) s
           in case ad_find E (calls s) filter of
               Inl err \<Rightarrow> (Rejected err, s1)
             | Inr results \<Rightarrow>
                 (case results of
                    None \<Rightarrow> (Resolved (Some []), cache_set userName' [] s1)
                  | Some found \<Rightarrow>
                      (case found of
                         [] \<Rightarrow> (Resolved (Some []), cache_set userName' [] s1)
                       | first # _ \<Rightarrow>
                           (Resolved (js_first (processResults E opts found)),
                            cache_set userName' first s1)))))"

subsection \<open>Attribute writes\<close>

definition setUserProperty :: "env \<Rightarrow> state \<Rightarrow> string \<Rightarrow> operation \<Rightarrow> reply promise \<times> state" where
  "setUserProperty E s userName obj = userReplaceOperation E s userName obj"

text \<open>\<open>!pass\<close> holds for the empty string.\<close>

definition setUserPassword :: "env \<Rightarrow> state \<Rightarrow> string \<Rightarrow> ustring \<Rightarrow> reply promise \<times> state" where
  "setUserPassword E s userName pass =
     (if pass = [] then (Rejected (Obj (plain_error ''No password provided.'')), s)
      else userReplaceOperation E s userName (''unicodePwd'', PStr (encodePassword E pass)))"

definition setUserPasswordNeverExpires :: "env \<Rightarrow> state \<Rightarrow> string \<Rightarrow> reply promise \<times> state" where
  "setUserPasswordNeverExpires E s userName =
     userReplaceOperation E s userName (''userAccountControl'', PNum 66048)"

definition enableUser :: "env \<Rightarrow> state \<Rightarrow> string \<Rightarrow> reply promise \<times> state" where
  "enableUser E s userName = userReplaceOperation E s userName (''userAccountControl'', PNum 512)"

definition disableUser :: "env \<Rightarrow> state \<Rightarrow> string \<Rightarrow> reply promise \<times> state" where
  "disableUser E s userName = userReplaceOperation E s userName (''userAccountControl'', PNum 514)"

definition unlockUser :: "env \<Rightarrow> state \<Rightarrow> string \<Rightarrow> reply promise \<times> state" where
  "unlockUser E s userName = userReplaceOperation E s userName (''lockoutTime'', PNum 0)"

subsection \<open>\<open>setUserCN\<close>, \<open>moveUser\<close>, \<open>getUserLocation\<close>\<close>

text \<open>
  In each of them the record comes from \<open>findUser\<close> called without shaping options; reading
  a property of an \<open>undefined\<close> result throws, and the \<open>catch\<close> rejects with that error.
\<close>

definition setUserCN :: "env \<Rightarrow> state \<Rightarrow> string \<Rightarrow> string \<Rightarrow> reply promise \<times> state" where
  "setUserCN E s userName cn =
     (case findUser E s userName None of
        (Rejected err, s1) \<Rightarrow> (Rejected err, s1)
      | (Resolved None, s1) \<Rightarrow> (Rejected type_error, s1)
      | (Resolved (Some userObject), s1) \<Rightarrow>
          (let oldDN = map_of userObject ''dn'';
               parts = js_split '','' (text_of oldDN);
               parts = (''CN='' @ cn) # drop 1 parts
           in (case modifyDN E s1 oldDN (js_join '','' parts) of
                 (Rejected err, s2) \<Rightarrow> (Rejected err, s2)
               | (Resolved result, s2) \<Rightarrow> (Resolved result, cache_delete userName s2))))"

definition moveUser :: "env \<Rightarrow> state \<Rightarrow> string \<Rightarrow> string \<Rightarrow> reply promise \<times> state" where
  "moveUser E s userName location =
     (let location = parseLocation E location
      in (case findUser E s userName None of
            (Rejected err, s1) \<Rightarrow> (Rejected err, s1)
          | (Resolved None, s1) \<Rightarrow> (Rejected type_error, s1)
          | (Resolved (Some userObject), s1) \<Rightarrow>
              (let oldDN = map_of userObject ''dn'';
                   baseDN = replace_all ''dc='' ''DC='' (baseDN E);
                   newDN = ''CN='' @ text_of (map_of userObject ''cn'') @ '','' @ location @ baseDN
               in (case modifyDN E s1 oldDN newDN of
                     (Rejected err, s2) \<Rightarrow> (Rejected err, s2)
                   | (Resolved result, s2) \<Rightarrow> (Resolved result, cache_delete userName s2)))))"

text \<open>The string computed from the \<open>dn\<close> attribute by \<open>getUserLocation\<close>.\<close>

definition location_of_dn :: "string option \<Rightarrow> string" where
  "location_of_dn dn =
     (let left = js_first (js_split '',dc=''
                   (replace_all ''OU='' ''ou=''
                     (replace_all ''CN='' ''cn=''
                       (replace_all ''DC='' ''dc='' (text_of dn)))));
          location = replace_all ''ou='' ''''
                       (replace_all ''cn='' ''!''
                         (js_join ''/'' (rev (drop 1 (js_split '','' (text_of left))))))
      in location)"

definition not_exist_error :: reason where
  "not_exist_error = Obj ((plain_error ''User does not exist.'')\<lparr>error_flag := True\<rparr>)"

definition getUserLocation :: "env \<Rightarrow> state \<Rightarrow> string \<Rightarrow> string promise \<times> state" where
  "getUserLocation E s userName =
     (case findUser E s userName None of
        (Rejected err, s1) \<Rightarrow> (Rejected err, s1)
      | (Resolved None, s1) \<Rightarrow> (Rejected type_error, s1)
      | (Resolved (Some userObject), s1) \<Rightarrow>
          (if userObject = [] then (Rejected not_exist_error, s1)
           else (Resolved (location_of_dn (map_of userObject ''dn'')), s1)))"

subsection \<open>\<open>updateUser\<close>\<close>

text \<open>
  \<open>opts\<close> is the list of own properties of the options object in the order
  \<open>Object.getOwnPropertyNames\<close> lists them. Each becomes one write; the value of
  \<open>unicodePwd\<close> is encoded first.
\<close>

definition collect_operations :: "env \<Rightarrow> (string \<times> pval) list \<Rightarrow> operation list" where
  "collect_operations E opts =
     map (\<lambda>(key, v). (key, if key = ''unicodePwd''
                             then PStr (encodePassword E (units_of (pval_text v))) else v)) opts"

text \<open>
  The closure \<open>go\<close>. Its free variables are arguments here: the name \<open>userName\<close> the caller
  gave, the current name \<open>currUserName\<close> and the writes still to do; \<open>pop\<close> takes the last.
  A write \<open>next\<close> has one property, so \<open>next.userPrincipalName\<close> is defined exactly when that
  property is \<open>userPrincipalName\<close>, and a name is used as text.
\<close>

function go :: "env \<Rightarrow> string \<Rightarrow> state \<Rightarrow> string \<Rightarrow> operation list \<Rightarrow> unit promise \<times> state" where
  "go E userName s currUserName operations =
     (if length operations < 1
      then (Resolved (), cache_delete userName (cache_delete currUserName s))
      else
        (case setUserProperty E s currUserName (last operations) of
           (Rejected err, s1) \<Rightarrow> (Rejected err, s1)
         | (Resolved res, s1) \<Rightarrow>
             (let currUserName' =
                    (if fst (last operations) = ''userPrincipalName''
                     then pval_text (snd (last operations)) else currUserName)
              in go E userName (cache_delete currUserName' s1) currUserName' (butlast operations))))"
  by pat_completeness auto
termination
  by (relation "measure (\<lambda>(E, userName, s, currUserName, operations). length operations)") auto

declare go.simps [simp del]

text \<open>
  The chain before \<open>go\<close>: the lookup, then the common name, the expiry toggle and the
  enabled toggle where they are present; a rejection anywhere rejects.
\<close>

definition updateUser :: "env \<Rightarrow> state \<Rightarrow> string \<Rightarrow> (string \<times> pval) list \<Rightarrow> unit promise \<times> state" where
  "updateUser E s userName opts =
     (let operations = collect_operations E opts
      in case findUser E s userName None of
           (Rejected err, s1) \<Rightarrow> (Rejected err, s1)
         | (Resolved data, s1) \<Rightarrow>
             (case (case map_of opts ''commonName'' of
                      None \<Rightarrow> (Resolved [], s1)
                    | Some cn \<Rightarrow> setUserCN E s1 userName (pval_text cn)) of
                (Rejected err, s2) \<Rightarrow> (Rejected err, s2)
              | (Resolved data, s2) \<Rightarrow>
                  (case (case map_of opts ''passwordExpires'' of
                           None \<Rightarrow> (Resolved [], s2)
                         | Some v \<Rightarrow>
                             if v = PBool False then setUserPasswordNeverExpires E s2 userName
                             else enableUser E s2 userName) of
                     (Rejected err, s3) \<Rightarrow> (Rejected err, s3)
                   | (Resolved data, s3) \<Rightarrow>
                       (case (case map_of opts ''enabled'' of
                                None \<Rightarrow> (Resolved [], s3)
                              | Some v \<Rightarrow>
                                  if v = PBool False then disableUser E s3 userName
                                  else enableUser E s3 userName) of
                          (Rejected err, s4) \<Rightarrow> (Rejected err, s4)
                        | (Resolved data, s4) \<Rightarrow> go E userName s4 userName operations))))"

subsection \<open>\<open>addUser\<close>\<close>

text \<open>
  A promise settles once: \<open>resolve\<close> and \<open>reject\<close> have no effect on a settled promise.
  \<open>settle\<close> keeps the earlier outcome.
\<close>

definition settle :: "'a promise option \<Rightarrow> 'a promise \<Rightarrow> 'a promise option" where
  "settle p outcome = (case p of None \<Rightarrow> Some outcome | Some earlier \<Rightarrow> Some earlier)"

text \<open>\<open>(!x) || ((x) && (x.trim().length === 0))\<close> for a property that is a string or missing.\<close>

definition blank :: "string option \<Rightarrow> bool" where
  "blank x = (case x of None \<Rightarrow> True | Some t \<Rightarrow> t = [] \<or> length (js_trim t) = 0)"

text \<open>The \<open>catch\<close> block of \<open>addUser\<close>.\<close>

definition creation_error :: "user_object \<Rightarrow> reason \<Rightarrow> reason" where
  "creation_error userObject err =
     (if contains (text_of (reason_message err)) ''ENTRY_EXISTS''
      then Obj ((plain_error (''User '' @ text_of (sAMAccountName userObject) @ '' already exists.''))
                  \<lparr>httpStatus := Some 400\<rparr>)
      else Obj ((plain_error (''Error creating user: '' @ text_of (reason_message err)))
                  \<lparr>httpStatus := Some 503\<rparr>))"

text \<open>
  The two validations call \<open>reject\<close> and fall through, so the body runs on in every case.
  The result is the settled promise (\<open>None\<close> if it never settles), the caller's object as
  the call leaves it, and the state. \<open>fl\<close> and \<open>rnd\<close> are the arithmetic and the random
  draws of \<open>createPassword\<close>. A missing \<open>sAMAccountName\<close> reaches the directory as the
  text \<open>undefined\<close>, as in the template of the object's name.
\<close>

definition addUser ::
  "env \<Rightarrow> (real \<Rightarrow> real) \<Rightarrow> (nat \<Rightarrow> real) \<Rightarrow> state \<Rightarrow> user_object \<Rightarrow> string option \<Rightarrow>
     (user_object \<times> ustring) promise option \<times> user_object \<times> state" where
  "addUser E fl rnd s userObject userLocation =
     (let p0 = (if \<not> isCorrectEmail (mail userObject)
                then settle None (Rejected (Text (''Incorrect email address: '' @ text_of (mail userObject))))
                else None);
          p1 = (if blank (sAMAccountName userObject)
                then settle p0 (Rejected (Text ''sAMAccountName not specified''))
                else p0);
          password = createPassword fl rnd;
          userObject = userObject\<lparr>userPassword := Some (ssha_create E password)\<rparr>;
          userLocation = normalizeLocation userLocation;
          userObject = userObject\<lparr>objectClass :=
                         Some [''top'', ''person'', ''organizationalPerson'', ''user'']\<rparr>;
          name = text_of (sAMAccountName userObject)
      in case addObject E s (''CN='' @ name) userLocation userObject of
           (Rejected err, s1) \<Rightarrow> (settle p1 (Rejected (creation_error userObject err)), userObject, s1)
         | (Resolved r1, s1) \<Rightarrow>
             (case setUserPassword E s1 name password of
                (Rejected err, s2) \<Rightarrow>
                  (settle p1 (Rejected (creation_error userObject err)), userObject, s2)
              | (Resolved r2, s2) \<Rightarrow>
                  (case enableUser E s2 name of
                     (Rejected err, s3) \<Rightarrow>
                       (settle p1 (Rejected (creation_error userObject err)), userObject, s3)
                   | (Resolved r3, s3) \<Rightarrow>
                       (settle p1 (Resolved (userObject, password)), userObject, s3))))"

subsection \<open>\<open>authenticateUser\<close>\<close>

text \<open>\<open>obj[key] = value\<close> on an object.\<close>

fun set_prop :: "string \<Rightarrow> string \<Rightarrow> (string \<times> string) list \<Rightarrow> (string \<times> string) list" where
  "set_prop k v [] = [(k, v)]"
| "set_prop k v ((k', v') # ps) = (if k = k' then (k, v) # ps else (k', v') # set_prop k v ps)"

text \<open>
  \<open>out.detail = \<dots>; out.message = \<dots>\<close> where \<open>out\<close> is what the client passed as
  \<open>authorized\<close>. The file is not in strict mode: on a boolean the assignments do nothing; on
  \<open>undefined\<close> the first one throws inside the callback, and the promise is never settled.
\<close>

fun annotate :: "auth_value \<Rightarrow> string \<Rightarrow> string \<Rightarrow> auth_value option" where
  "annotate AUndefined detail msg = None"
| "annotate (ABool b) detail msg = Some (ABool b)"
| "annotate (AObj ps) detail msg = Some (AObj (set_prop ''message'' msg (set_prop ''detail'' detail ps)))"

text \<open>Truthiness of a property that is a string or missing.\<close>

definition truthy :: "string option \<Rightarrow> bool" where
  "truthy x = (case x of None \<Rightarrow> False | Some t \<Rightarrow> t \<noteq> [])"

text \<open>
  The callback of \<open>this.ad.authenticate\<close>. With an error that has a truthy \<open>lde_message\<close>
  the result is annotated and the error is dropped; any other error rejects. The two
  \<open>console.log\<close> lines write to the console only.
\<close>

definition authenticateUser :: "env \<Rightarrow> state \<Rightarrow> string \<Rightarrow> string \<Rightarrow> auth_outcome \<times> state" where
  "authenticateUser E s userName pass =
     (let fullUser = userName @ ''@'' @ domain E;
          s1 = sent (Authenticate fullUser pass) s
      in case ad_authenticate E (calls s) fullUser pass of
           (None, authorized) \<Rightarrow> (AuthResolved authorized, s1)
         | (Some error, authorized) \<Rightarrow>
             if truthy (lde_message error)
             then (case annotate authorized (text_of (lde_message error))
                          (text_of (js_first (js_split '':'' (text_of (stack error))))) of
                     None \<Rightarrow> (AuthThrew, s1)
                   | Some out \<Rightarrow> (AuthResolved out, s1))
             else (AuthRejected (Obj error), s1))"

section \<open>A concrete directory\<close>

text \<open>
  A small directory for evaluating the operations: the domain \<open>corp.com\<close> with the users
  \<open>bob\<close>, \<open>jane\<close>, \<open>admin\<close> and \<open>doe\<close>, whose common name \<open>Doe, John\<close> has a comma. A
  search for \<open>bob\<close> returns his record, with the distinguished name of the last rename if
  there was one; the others do not change; any other search finds nothing. A write of the attribute
  \<open>badAttr\<close> fails and so does a rename without an old name; every other write, rename
  and creation succeeds. The password
  \<open>secret\<close> authenticates; any other is refused with the client's
  \<open>InvalidCredentialsError\<close> and the result \<open>false\<close>.
\<close>

definition bob_filter :: string where
  "bob_filter = ''(|(userPrincipalName=bob@corp.com)(sAMAccountName=bob))''"

definition bob_dn :: "call list \<Rightarrow> string" where
  "bob_dn history =
     (case [n. ModifyDN _ n \<leftarrow> history] of
        [] \<Rightarrow> ''CN=Bob,OU=Sales,DC=corp,DC=com''
      | n # ns \<Rightarrow> last (n # ns))"

definition bob_record :: "call list \<Rightarrow> urecord" where
  "bob_record history = [(''dn'', bob_dn history), (''cn'', ''Bob''), (''sAMAccountName'', ''bob'')]"

definition filter_for :: "string \<Rightarrow> string" where
  "filter_for key = ''(|(userPrincipalName='' @ key @ ''@corp.com)(sAMAccountName='' @ key @ ''))''"

definition jane_record :: urecord where
  "jane_record = [(''dn'', ''CN=Jane,OU=Sales,OU=EMEA,DC=corp,DC=com''), (''cn'', ''Jane''),
                  (''sAMAccountName'', ''jane'')]"

definition admin_record :: urecord where
  "admin_record = [(''dn'', ''CN=Admin,CN=Users,DC=corp,DC=com''), (''cn'', ''Admin''),
                   (''sAMAccountName'', ''admin'')]"

definition doe_record :: urecord where
  "doe_record = [(''dn'', ''CN=Doe'' @ [CHR 0x5C] @ '', John,OU=Sales,OU=EMEA,DC=corp,DC=com''),
                 (''cn'', ''Doe, John''), (''sAMAccountName'', ''doe'')]"

definition invalid_credentials :: err_obj where
  "invalid_credentials =
     \<lparr>message = Some ''Invalid Credentials'', httpStatus = None, error_flag = False,
      lde_message = Some ''80090308: LdapErr: DSID-0C09042F, data 52e'',
      stack = Some ''InvalidCredentialsError: Invalid Credentials''\<rparr>"

definition demo_env :: env where
  "demo_env =
     \<lparr>domain = ''corp.com'',
      baseDN = ''dc=corp,dc=com'',
      parseLocation = (\<lambda>l. normalizeLocation (Some l)),
      encodePassword = (\<lambda>p. replicate (length p) CHR ''*''),
      ssha_create = (\<lambda>p. ''{SSHA256}'' @ replicate (length p) CHR ''#''),
      processResults = (\<lambda>opts rows. rows),
      ad_find = (\<lambda>history filter.
                   if filter = bob_filter then Inr (Some [bob_record history])
                   else if filter = filter_for ''jane'' then Inr (Some [jane_record])
                   else if filter = filter_for ''admin'' then Inr (Some [admin_record])
                   else if filter = filter_for ''doe'' then Inr (Some [doe_record])
                   else Inr (Some [])),
      ad_authenticate = (\<lambda>history fullUser pass.
                   if pass = ''secret'' then (None, ABool True)
                   else (Some invalid_credentials, ABool False)),
      ad_replace = (\<lambda>history userName operation.
                   if fst operation = ''badAttr''
                   then Inl (Obj (plain_error ''NoSuchAttributeError'')) else Inr ''ok''),
      ad_modifyDN = (\<lambda>history oldDN newDN.
                   case oldDN of
                     None \<Rightarrow> Inl (Obj (plain_error ''NoSuchObjectError''))
                   | Some dn \<Rightarrow> Inr ''ok''),
      ad_addObject = (\<lambda>history name location object. Inr ''ok'')\<rparr>"

definition empty_state :: state where
  "empty_state = \<lparr>users = Map.empty, calls = []\<rparr>"

section \<open>Auxiliary definitions for the proofs\<close>

text \<open>
  The outcome of the two validations of \<open>addUser\<close> and the object as \<open>addUser\<close> rewrites
  it, named so that the body of \<open>addUser\<close> can be unfolded step by step.
\<close>

definition validation :: "user_object \<Rightarrow> (user_object \<times> ustring) promise option" where
  "validation userObject =
     (let p0 = (if \<not> isCorrectEmail (mail userObject)
                then settle None (Rejected (Text (''Incorrect email address: '' @ text_of (mail userObject))))
                else None)
      in if blank (sAMAccountName userObject)
         then settle p0 (Rejected (Text ''sAMAccountName not specified''))
         else p0)"

definition prepared :: "env \<Rightarrow> ustring \<Rightarrow> user_object \<Rightarrow> user_object" where
  "prepared E password userObject =
     userObject\<lparr>userPassword := Some (ssha_create E password),
                objectClass := Some [''top'', ''person'', ''organizationalPerson'', ''user'']\<rparr>"

definition demo_user :: user_object where
  "demo_user = \<lparr>mail = Some ''bob@corp.com'', sAMAccountName = Some ''bob'', userPassword = None,
                 objectClass = None, other = []\<rparr>"

text \<open>
  The key under which \<open>findUser\<close> stores a record: the name up to the first \<open>@\<close>. The
  search filter built from it.
\<close>

definition lookup_key :: "string \<Rightarrow> string" where
  "lookup_key userName = takeWhile (\<lambda>c. c \<noteq> CHR ''@'') userName"

definition user_filter :: "env \<Rightarrow> string \<Rightarrow> string" where
  "user_filter E key = ''(|(userPrincipalName='' @ key @ ''@'' @ domain E @
                       '')(sAMAccountName='' @ key @ ''))''"

text \<open>
  The part of \<open>updateUser\<close> before \<open>go\<close> is called: how the chain of \<open>then\<close> handlers
  settles, and in which state.
\<close>

definition prelude :: "env \<Rightarrow> state \<Rightarrow> string \<Rightarrow> (string \<times> pval) list \<Rightarrow> unit promise \<times> state" where
  "prelude E s userName opts =
     (case findUser E s userName None of
        (Rejected err, s1) \<Rightarrow> (Rejected err, s1)
      | (Resolved data, s1) \<Rightarrow>
          (case (case map_of opts ''commonName'' of
                   None \<Rightarrow> (Resolved [], s1)
                 | Some cn \<Rightarrow> setUserCN E s1 userName (pval_text cn)) of
             (Rejected err, s2) \<Rightarrow> (Rejected err, s2)
           | (Resolved data, s2) \<Rightarrow>
               (case (case map_of opts ''passwordExpires'' of
                        None \<Rightarrow> (Resolved [], s2)
                      | Some v \<Rightarrow>
                          if v = PBool False then setUserPasswordNeverExpires E s2 userName
                          else enableUser E s2 userName) of
                  (Rejected err, s3) \<Rightarrow> (Rejected err, s3)
                | (Resolved data, s3) \<Rightarrow>
                    (case (case map_of opts ''enabled'' of
                             None \<Rightarrow> (Resolved [], s3)
                           | Some v \<Rightarrow>
                               if v = PBool False then disableUser E s3 userName
                               else enableUser E s3 userName) of
                       (Rejected err, s4) \<Rightarrow> (Rejected err, s4)
                     | (Resolved data, s4) \<Rightarrow> (Resolved (), s4)))))"

text \<open>
  The sequence of writes as the specification describes it: the writes of a list applied
  one after the other in the order of the list, each begun only after the one before it
  has completed and the cache entry of the current name has been removed, the first
  failure ending the sequence with its error. \<open>names_from\<close> lists the name each write is
  sent under, \<open>requests\<close> the requests the whole sequence would send, and \<open>answer\<close> what
  the directory answers to the \<open>k\<close>-th of them when the ones before it have been sent.
\<close>

fun writes_in_order :: "env \<Rightarrow> string \<Rightarrow> state \<Rightarrow> string \<Rightarrow> operation list \<Rightarrow> unit promise \<times> state" where
  "writes_in_order E userName s cur [] = (Resolved (), cache_delete userName (cache_delete cur s))"
| "writes_in_order E userName s cur (w # ws) =
     (case setUserProperty E s cur w of
        (Rejected err, s1) \<Rightarrow> (Rejected err, s1)
      | (Resolved res, s1) \<Rightarrow>
          (let cur' = (if fst w = ''userPrincipalName'' then pval_text (snd w) else cur)
           in writes_in_order E userName (cache_delete cur' s1) cur' ws))"

fun names_from :: "string \<Rightarrow> operation list \<Rightarrow> string list" where
  "names_from cur [] = []"
| "names_from cur (w # ws) =
     cur # names_from (if fst w = ''userPrincipalName'' then pval_text (snd w) else cur) ws"

definition requests :: "string \<Rightarrow> operation list \<Rightarrow> call list" where
  "requests cur ws = map (\<lambda>(n, w). Replace n w) (zip (names_from cur ws) ws)"



text \<open>
  Distinguished names for the statement about \<open>getUserLocation\<close>: a container between
  the leaf and the base DN is an organisational unit or a \<open>CN\<close> container, its label
  written in upper or in lower case; \<open>rdn_text\<close> is how it is written in a DN and \<open>shown\<close>
  how it appears in a location. A plain name has no comma and no equals sign. \<open>lowered\<close> is
  a container with its label in lower case.
\<close>

datatype container = OU string | CN string | OU_lower string | CN_lower string













text \<open>
  \<open>begin_states\<close> lists the states in which the writes of a sequence are begun, one after
  the other, up to and including the first write that fails; \<open>final_name\<close> is the current
  name after all writes of the sequence.
\<close>

fun begin_states :: "env \<Rightarrow> state \<Rightarrow> string \<Rightarrow> operation list \<Rightarrow> state list" where
  "begin_states E s cur [] = []"
| "begin_states E s cur (w # ws) =
     s # (case setUserProperty E s cur w of
            (Rejected err, s1) \<Rightarrow> []
          | (Resolved res, s1) \<Rightarrow>
              (let cur' = (if fst w = ''userPrincipalName'' then pval_text (snd w) else cur)
               in begin_states E (cache_delete cur' s1) cur' ws))"



section \<open>Password generation: results\<close>

lemma index_in_range:
  assumes r: "0 \<le> r" "r < 1" and m: "0 \<le> m" "m \<le> 26"
    and fl: "mono fl" "\<forall>k\<in>{0..26::int}. fl (of_int k) = of_int k"
  shows "0 \<le> getRandomIndex fl r m \<and> getRandomIndex fl r m \<le> m"
proof -
  have lo: "0 \<le> r * of_int m" using r m by simp
  have hi: "r * of_int m \<le> of_int m" using r m by (simp add: mult_left_le_one_le)
  have f0: "fl 0 = 0" using fl(2) by (metis atLeastAtMost_iff of_int_0 order_refl zero_le_numeral)
  have fm: "fl (of_int m) = of_int m" using fl(2) m by simp
  have "fl 0 \<le> fl (r * of_int m)" using fl(1) lo by (rule monoD)
  moreover have "fl (r * of_int m) \<le> fl (of_int m)" using fl(1) hi by (rule monoD)
  ultimately have "0 \<le> fl (r * of_int m)" "fl (r * of_int m) \<le> of_int m"
    using f0 fm by simp_all
  then show ?thesis
    unfolding getRandomIndex_def by (simp add: ceiling_le_iff)
qed

lemma getRandomString_1:
  "getRandomString fl rnd source (Suc 0) p = (pick fl rnd source p, Suc p)"
  by (simp add: getRandomString_def pick_def)

lemma getRandomString_2:
  "getRandomString fl rnd source (Suc (Suc 0)) p =
     (pick fl rnd source p @ pick fl rnd source (Suc p), Suc (Suc p))"
  by (simp add: getRandomString_def pick_def)

lemma getRandomString_3:
  "getRandomString fl rnd source (Suc (Suc (Suc 0))) p =
     (pick fl rnd source p @ pick fl rnd source (Suc p) @ pick fl rnd source (Suc (Suc p)),
      Suc (Suc (Suc p)))"
  by (simp add: getRandomString_def pick_def)

lemma pick_in_pool:
  assumes "\<forall>i. 0 \<le> rnd i \<and> rnd i < 1" "mono fl" "\<forall>k\<in>{0..26::int}. fl (of_int k) = of_int k"
    and "source \<noteq> []" "length source \<le> 27"
  shows "\<exists>c\<in>set source. pick fl rnd source p = [c]"
proof -
  let ?m = "int (length source) - 1"
  have m: "0 \<le> ?m" "?m \<le> 26" using assms(4,5) by (cases source; simp)+
  have "0 \<le> getRandomIndex fl (rnd p) ?m \<and> getRandomIndex fl (rnd p) ?m \<le> ?m"
    using assms(1) m assms(2,3) by (intro index_in_range) auto
  then show ?thesis
    unfolding pick_def char_at_text_def by auto
qed

lemma createPassword_unfold:
  "createPassword fl rnd =
     pick fl rnd specials 0 @
     (pick fl rnd digits (Suc 0) @ pick fl rnd digits 2 @ pick fl rnd digits 3) @
     toUpperCase (pick fl rnd letters 4 @ pick fl rnd letters 5) @
     (pick fl rnd letters 6 @ pick fl rnd letters 7 @ pick fl rnd letters 8)"
  by (simp add: createPassword_def createPassword_from_def getRandomString_1 getRandomString_2
      getRandomString_3 eval_nat_numeral)

text \<open>
  C8. Whatever the random draws are (each in \<open>[0, 1)\<close>, the product rounded by any monotone
  rounding that is exact on the integers up to 26), \<open>createPassword\<close> returns exactly nine
  code units: one from \<open>specials\<close>, three from \<open>digits\<close>, two upper-cased units of
  \<open>letters\<close>, three units of \<open>letters\<close>. No index falls outside its pool, so the text
  \<open>undefined\<close> never appears.
\<close>

theorem createPassword_layout:
  assumes "\<forall>i. 0 \<le> rnd i \<and> rnd i < 1" "mono fl" "\<forall>k\<in>{0..26::int}. fl (of_int k) = of_int k"
  shows "\<exists>sp d1 d2 d3 u1 u2 l1 l2 l3.
           createPassword fl rnd = [sp, d1, d2, d3, upper_unit u1, upper_unit u2, l1, l2, l3] \<and>
           sp \<in> set specials \<and> {d1, d2, d3} \<subseteq> set digits \<and>
           {u1, u2} \<subseteq> set letters \<and> {l1, l2, l3} \<subseteq> set letters"
proof -
  have s: "specials \<noteq> []" "length specials \<le> 27" by (simp_all add: specials_def)
  have d: "digits \<noteq> []" "length digits \<le> 27" by (simp_all add: digits_def)
  have l: "letters \<noteq> []" "length letters \<le> 27" by (simp_all add: letters_def)
  note P = pick_in_pool [OF assms]
  obtain sp where sp: "sp \<in> set specials" "pick fl rnd specials 0 = [sp]" using P [OF s] by blast
  obtain d1 where d1: "d1 \<in> set digits" "pick fl rnd digits (Suc 0) = [d1]" using P [OF d] by blast
  obtain d2 where d2: "d2 \<in> set digits" "pick fl rnd digits 2 = [d2]" using P [OF d] by blast
  obtain d3 where d3: "d3 \<in> set digits" "pick fl rnd digits 3 = [d3]" using P [OF d] by blast
  obtain u1 where u1: "u1 \<in> set letters" "pick fl rnd letters 4 = [u1]" using P [OF l] by blast
  obtain u2 where u2: "u2 \<in> set letters" "pick fl rnd letters 5 = [u2]" using P [OF l] by blast
  obtain l1 where l1: "l1 \<in> set letters" "pick fl rnd letters 6 = [l1]" using P [OF l] by blast
  obtain l2 where l2: "l2 \<in> set letters" "pick fl rnd letters 7 = [l2]" using P [OF l] by blast
  obtain l3 where l3: "l3 \<in> set letters" "pick fl rnd letters 8 = [l3]" using P [OF l] by blast
  have "createPassword fl rnd = [sp, d1, d2, d3, upper_unit u1, upper_unit u2, l1, l2, l3]"
    by (simp add: createPassword_unfold sp d1 d2 d3 u1 u2 l1 l2 l3 toUpperCase_def)
  then show ?thesis using sp(1) d1(1) d2(1) d3(1) u1(1) u2(1) l1(1) l2(1) l3(1) by blast
qed

theorem createPassword_layout_witness:
  "(\<forall>i::nat. (0::real) \<le> 1/2 \<and> (1/2::real) < 1) \<and> mono (\<lambda>x::real. x) \<and>
   createPassword (\<lambda>x. x) (\<lambda>_. 1/2) = [0x3D, 0x35, 0x35, 0x35, 0x46, 0x46, 0x66, 0x66, 0x66] \<and>
   (\<exists>sp d1 d2 d3 u1 u2 l1 l2 l3.
      createPassword (\<lambda>x. x) (\<lambda>_. 1/2) = [sp, d1, d2, d3, upper_unit u1, upper_unit u2, l1, l2, l3] \<and>
      sp \<in> set specials \<and> {d1, d2, d3} \<subseteq> set digits \<and>
      {u1, u2} \<subseteq> set letters \<and> {l1, l2, l3} \<subseteq> set letters)"
proof -
  have m: "mono (\<lambda>x::real. x)" by (simp add: mono_def)
  have e: "createPassword (\<lambda>x. x) (\<lambda>_. 1/2) = [0x3D, 0x35, 0x35, 0x35, 0x46, 0x46, 0x66, 0x66, 0x66]"
    by (simp add: createPassword_def createPassword_from_def getRandomString_def getRandomIndex_def
     char_at_text_def specials_def digits_def letters_def toUpperCase_def upper_unit_def)
  show ?thesis
    using createPassword_layout [of "\<lambda>_. 1/2" "\<lambda>x. x"] m e by simp
qed

section \<open>\<open>isCorrectEmail\<close>: results\<close>

lemma nullable_denotes: "nullable r \<longleftrightarrow> [] \<in> denotes r"
  by (induction r) (auto intro: rep_closure.rc_nil)

lemma rep_closure_cons:
  "c # w \<in> rep_closure A \<longleftrightarrow> (\<exists>u v. w = u @ v \<and> c # u \<in> A \<and> v \<in> rep_closure A)"
proof
  assume "c # w \<in> rep_closure A"
  then show "\<exists>u v. w = u @ v \<and> c # u \<in> A \<and> v \<in> rep_closure A"
  proof (induction "c # w" rule: rep_closure.induct)
    case (rc_more u v)
    show ?case
    proof (cases u)
      case Nil
      with rc_more show ?thesis by simp
    next
      case (Cons a u')
      with rc_more(1,2,4) show ?thesis by auto
    qed
  qed
next
  assume "\<exists>u v. w = u @ v \<and> c # u \<in> A \<and> v \<in> rep_closure A"
  then obtain u v where "w = u @ v" "c # u \<in> A" "v \<in> rep_closure A" by blast
  then show "c # w \<in> rep_closure A"
    using rep_closure.rc_more [of "c # u" A v] by simp
qed

lemma cat_cons:
  "c # w \<in> {u @ v | u v. u \<in> A \<and> v \<in> B} \<longleftrightarrow>
     ([] \<in> A \<and> c # w \<in> B) \<or> (\<exists>u v. w = u @ v \<and> c # u \<in> A \<and> v \<in> B)"
  (is "?L \<longleftrightarrow> ?R")
proof
  assume ?L
  then obtain u v where uv: "c # w = u @ v" "u \<in> A" "v \<in> B" by blast
  show ?R
  proof (cases u)
    case Nil
    with uv show ?thesis by simp
  next
    case (Cons a u')
    with uv have "w = u' @ v" "c # u' \<in> A" by simp_all
    with uv(3) show ?thesis by blast
  qed
next
  assume ?R
  then show ?L
  proof
    assume "[] \<in> A \<and> c # w \<in> B"
    then have "c # w = [] @ (c # w)" "[] \<in> A" "c # w \<in> B" by simp_all
    then show ?L by blast
  next
    assume "\<exists>u v. w = u @ v \<and> c # u \<in> A \<and> v \<in> B"
    then obtain u v where "w = u @ v" "c # u \<in> A" "v \<in> B" by blast
    then have "c # w = (c # u) @ v" "c # u \<in> A" "v \<in> B" by simp_all
    then show ?L by blast
  qed
qed

lemma deriv_denotes: "w \<in> denotes (deriv c r) \<longleftrightarrow> c # w \<in> denotes r"
proof (induction r arbitrary: w)
  case Fail
  show ?case by simp
next
  case Eps
  show ?case by simp
next
  case (Class P)
  show ?case by simp
next
  case (Alt r s)
  then show ?case by simp
next
  case (Cat r s)
  have "c # w \<in> denotes (Cat r s) \<longleftrightarrow>
        ([] \<in> denotes r \<and> c # w \<in> denotes s) \<or>
        (\<exists>u v. w = u @ v \<and> c # u \<in> denotes r \<and> v \<in> denotes s)"
    unfolding denotes.simps by (rule cat_cons)
  also have "\<dots> \<longleftrightarrow> (nullable r \<and> w \<in> denotes (deriv c s)) \<or>
        (\<exists>u v. w = u @ v \<and> u \<in> denotes (deriv c r) \<and> v \<in> denotes s)"
    by (simp only: Cat.IH nullable_denotes)
  also have "\<dots> \<longleftrightarrow> w \<in> denotes (deriv c (Cat r s))"
    by (cases "nullable r") auto
  finally show ?case by simp
next
  case (Star r)
  have "c # w \<in> denotes (Star r) \<longleftrightarrow>
        (\<exists>u v. w = u @ v \<and> c # u \<in> denotes r \<and> v \<in> rep_closure (denotes r))"
    by (simp only: denotes.simps rep_closure_cons)
  also have "\<dots> \<longleftrightarrow>
        (\<exists>u v. w = u @ v \<and> u \<in> denotes (deriv c r) \<and> v \<in> rep_closure (denotes r))"
    by (simp only: Star.IH)
  also have "\<dots> \<longleftrightarrow> w \<in> denotes (deriv c (Star r))"
    by auto
  finally show ?case by simp
qed

lemma regex_test_denotes: "regex_test r s \<longleftrightarrow> s \<in> denotes r"
  by (induction s arbitrary: r) (simp_all add: nullable_denotes deriv_denotes)


lemma rep_closure_class: "rep_closure {[c] | c. P c} = {w. \<forall>c\<in>set w. P c}"
proof (rule set_eqI)
  fix w
  show "w \<in> rep_closure {[c] | c. P c} \<longleftrightarrow> w \<in> {w. \<forall>c\<in>set w. P c}"
  proof (induction w)
    case Nil
    show ?case by (simp add: rep_closure.rc_nil)
  next
    case (Cons a w)
    have "a # w \<in> rep_closure {[c] | c. P c} \<longleftrightarrow> P a \<and> w \<in> rep_closure {[c] | c. P c}"
      by (auto simp: rep_closure_cons)
    with Cons show ?case by simp
  qed
qed

lemma denotes_Class_Cat:
  "denotes (Cat (Class P) r) = {a # w | a w. P a \<and> w \<in> denotes r}"
proof (rule set_eqI)
  fix x
  show "x \<in> denotes (Cat (Class P) r) \<longleftrightarrow> x \<in> {a # w | a w. P a \<and> w \<in> denotes r}"
  proof
    assume "x \<in> denotes (Cat (Class P) r)"
    then show "x \<in> {a # w | a w. P a \<and> w \<in> denotes r}" by auto
  next
    assume "x \<in> {a # w | a w. P a \<and> w \<in> denotes r}"
    then obtain a w where "x = [a] @ w" "[a] \<in> denotes (Class P)" "w \<in> denotes r" by auto
    then show "x \<in> denotes (Cat (Class P) r)" unfolding denotes.simps(5) by blast
  qed
qed

lemma denotes_plus_class:
  "denotes (plus_re (Class P)) = {w. w \<noteq> [] \<and> (\<forall>c\<in>set w. P c)}"
proof -
  have "denotes (plus_re (Class P)) = {a # w | a w. P a \<and> w \<in> {w. \<forall>c\<in>set w. P c}}"
    unfolding plus_re_def denotes_Class_Cat by (simp add: rep_closure_class)
  also have "\<dots> = {w. w \<noteq> [] \<and> (\<forall>c\<in>set w. P c)}"
  proof (rule set_eqI)
    fix w
    show "w \<in> {a # w | a w. P a \<and> w \<in> {w. \<forall>c\<in>set w. P c}} \<longleftrightarrow>
          w \<in> {w. w \<noteq> [] \<and> (\<forall>c\<in>set w. P c)}"
      by (cases w) auto
  qed
  finally show ?thesis .
qed

lemma denotes_exactly_class:
  "denotes (exactly n (Class P)) = {w. length w = n \<and> (\<forall>c\<in>set w. P c)}"
proof (induction n)
  case 0
  show ?case by auto
next
  case (Suc n)
  have "denotes (exactly (Suc n) (Class P)) =
        {a # w | a w. P a \<and> w \<in> {w. length w = n \<and> (\<forall>c\<in>set w. P c)}}"
    unfolding exactly.simps denotes_Class_Cat Suc ..
  also have "\<dots> = {w. length w = Suc n \<and> (\<forall>c\<in>set w. P c)}"
  proof (rule set_eqI)
    fix w
    show "w \<in> {a # w | a w. P a \<and> w \<in> {w. length w = n \<and> (\<forall>c\<in>set w. P c)}} \<longleftrightarrow>
          w \<in> {w. length w = Suc n \<and> (\<forall>c\<in>set w. P c)}"
      by (cases w) auto
  qed
  finally show ?case .
qed

lemma denotes_at_most_class:
  "denotes (at_most n (Class P)) = {w. length w \<le> n \<and> (\<forall>c\<in>set w. P c)}"
proof (induction n)
  case 0
  show ?case by auto
next
  case (Suc n)
  have "denotes (at_most (Suc n) (Class P)) =
        {[]} \<union> {a # w | a w. P a \<and> w \<in> {w. length w \<le> n \<and> (\<forall>c\<in>set w. P c)}}"
    unfolding at_most.simps denotes.simps(4) denotes_Class_Cat Suc by simp
  also have "\<dots> = {w. length w \<le> Suc n \<and> (\<forall>c\<in>set w. P c)}"
  proof (rule set_eqI)
    fix w
    show "w \<in> {[]} \<union> {a # w | a w. P a \<and> w \<in> {w. length w \<le> n \<and> (\<forall>c\<in>set w. P c)}} \<longleftrightarrow>
          w \<in> {w. length w \<le> Suc n \<and> (\<forall>c\<in>set w. P c)}"
      by (cases w) auto
  qed
  finally show ?case .
qed

lemma denotes_between_class:
  assumes "m \<le> n"
  shows "denotes (between m n (Class P)) = {w. m \<le> length w \<and> length w \<le> n \<and> (\<forall>c\<in>set w. P c)}"
proof (rule set_eqI)
  fix w
  show "w \<in> denotes (between m n (Class P)) \<longleftrightarrow>
        w \<in> {w. m \<le> length w \<and> length w \<le> n \<and> (\<forall>c\<in>set w. P c)}"
  proof
    assume "w \<in> denotes (between m n (Class P))"
    then obtain u v where "w = u @ v" "length u = m" "\<forall>c\<in>set u. P c"
        "length v \<le> n - m" "\<forall>c\<in>set v. P c"
      unfolding between_def denotes.simps(5) denotes_exactly_class denotes_at_most_class
      by blast
    then show "w \<in> {w. m \<le> length w \<and> length w \<le> n \<and> (\<forall>c\<in>set w. P c)}"
      using assms by auto
  next
    assume w: "w \<in> {w. m \<le> length w \<and> length w \<le> n \<and> (\<forall>c\<in>set w. P c)}"
    let ?u = "take m w" and ?v = "drop m w"
    have "w = ?u @ ?v" by simp
    moreover have "length ?u = m" "length ?v \<le> n - m" using w by auto
    moreover have "\<forall>c\<in>set ?u. P c" "\<forall>c\<in>set ?v. P c"
      using w by (auto dest: in_set_takeD in_set_dropD)
    ultimately show "w \<in> denotes (between m n (Class P))"
      unfolding between_def denotes.simps(5) denotes_exactly_class denotes_at_most_class
      by blast
  qed
qed

lemma denotes_email_reg: "s \<in> denotes email_reg \<longleftrightarrow> email_shape s"
  unfolding email_reg_def email_shape_def denotes.simps(5)
    denotes_plus_class denotes_between_class [of 2 5, simplified]
  by simp blast

lemma js_trim_empty: "js_trim s = [] \<longleftrightarrow> (\<forall>c\<in>set s. is_js_space c)"
proof -
  have "js_trim s = [] \<longleftrightarrow> (\<forall>c\<in>set (dropWhile is_js_space s). is_js_space c)"
    by (simp add: js_trim_def dropWhile_eq_Nil_conv)
  also have "\<dots> \<longleftrightarrow> (\<forall>c\<in>set s. is_js_space c)"
  proof
    assume all: "\<forall>c\<in>set (dropWhile is_js_space s). is_js_space c"
    have "dropWhile is_js_space s = []"
    proof (rule ccontr)
      assume ne: "dropWhile is_js_space s \<noteq> []"
      then have "\<not> is_js_space (hd (dropWhile is_js_space s))" by (rule hd_dropWhile)
      moreover have "hd (dropWhile is_js_space s) \<in> set (dropWhile is_js_space s)"
        using ne by (rule hd_in_set)
      ultimately show False using all by blast
    qed
    then show "\<forall>c\<in>set s. is_js_space c" by (simp only: dropWhile_eq_Nil_conv)
  next
    assume "\<forall>c\<in>set s. is_js_space c"
    then show "\<forall>c\<in>set (dropWhile is_js_space s). is_js_space c"
      by (auto dest: set_dropWhileD)
  qed
  finally show ?thesis .
qed

lemma name_char_not_space: "name_char c \<Longrightarrow> \<not> is_js_space c"
  by (auto simp: name_char_def is_js_space_def less_eq_char_def)

lemma email_shape_not_blank:
  assumes "email_shape s"
  shows "s \<noteq> [] \<and> js_trim s \<noteq> []"
proof -
  from assms obtain l r where "s = l @ r" "l \<noteq> []" "\<forall>c\<in>set l. name_char c"
    unfolding email_shape_def by blast
  then obtain a where "a \<in> set s" "name_char a" by (cases l) auto
  then show ?thesis using js_trim_empty name_char_not_space by auto
qed

lemma isCorrectEmail_iff_shape: "isCorrectEmail (Some s) \<longleftrightarrow> email_shape s"
  using email_shape_not_blank [of s]
  by (auto simp: isCorrectEmail_def regex_test_denotes denotes_email_reg)

text \<open>
  C9. \<open>isCorrectEmail\<close> is false for \<open>undefined\<close>, for the empty string and for every
  string of white space only; on every other string it is true exactly for the strings of
  the shape \<open>local@domain.tld\<close> described by \<open>email_shape\<close>, so every malformed string is
  rejected. It accepts \<open>a@b.co\<close> and \<open>a.b@c-d.com\<close> and rejects \<open>a@b\<close>.
\<close>

theorem isCorrectEmail_cases:
  "\<not> isCorrectEmail None \<and> \<not> isCorrectEmail (Some '''') \<and>
   ((\<forall>c\<in>set s. is_js_space c) \<longrightarrow> \<not> isCorrectEmail (Some s)) \<and>
   (isCorrectEmail (Some s) \<longleftrightarrow> email_shape s) \<and>
   isCorrectEmail (Some ''a@b.co'') \<and> \<not> isCorrectEmail (Some ''a@b'') \<and>
   isCorrectEmail (Some ''a.b@c-d.com'')"
proof -
  have 1: "\<not> isCorrectEmail None" "\<not> isCorrectEmail (Some '''')"
    by (simp_all add: isCorrectEmail_def)
  have 2: "(\<forall>c\<in>set s. is_js_space c) \<longrightarrow> \<not> isCorrectEmail (Some s)"
    by (simp add: isCorrectEmail_def js_trim_empty)
  have 3: "isCorrectEmail (Some ''a@b.co'')" by code_simp
  have 4: "\<not> isCorrectEmail (Some ''a@b'')" by code_simp
  have 5: "isCorrectEmail (Some ''a.b@c-d.com'')" by code_simp
  show ?thesis using 1 2 3 4 5 isCorrectEmail_iff_shape by blast
qed

theorem isCorrectEmail_cases_witness:
  "list_all is_js_space ''  '' \<and> \<not> isCorrectEmail (Some ''  '') \<and>
   \<not> email_shape ''  '' \<and> email_shape ''a@b.co'' \<and> \<not> email_shape ''a@b''"
proof -
  have sp: "\<forall>c\<in>set ''  ''. is_js_space c" by (simp add: is_js_space_def)
  have "list_all is_js_space ''  ''" using sp by (simp only: list_all_iff)
  then show ?thesis
    using sp isCorrectEmail_cases [of "''  ''"] isCorrectEmail_cases [of "''a@b.co''"]
      isCorrectEmail_cases [of "''a@b''"]
    by blast
qed

section \<open>State bookkeeping\<close>

lemma calls_sent [simp]: "calls (sent c s) = calls s @ [c]"
  by (simp add: sent_def)

lemma users_sent [simp]: "users (sent c s) = users s"
  by (simp add: sent_def)

lemma calls_cache_delete [simp]: "calls (cache_delete k s) = calls s"
  by (simp add: cache_delete_def)

lemma users_cache_delete [simp]: "users (cache_delete k s) = (users s)(k := None)"
  by (simp add: cache_delete_def)

lemma calls_cache_set [simp]: "calls (cache_set k v s) = calls s"
  by (simp add: cache_set_def)

lemma users_cache_set [simp]: "users (cache_set k v s) = (users s)(k \<mapsto> v)"
  by (simp add: cache_set_def)

section \<open>\<open>addUser\<close>: results\<close>

lemma settle_None [simp]: "settle None x = Some x"
  by (simp add: settle_def)

lemma settle_Some [simp]: "settle (Some y) x = Some y"
  by (simp add: settle_def)

lemma sAMAccountName_prepared [simp]: "sAMAccountName (prepared E pw uo) = sAMAccountName uo"
  by (simp add: prepared_def)

lemma addUser_steps:
  "addUser E fl rnd s userObject userLocation =
     (let password = createPassword fl rnd;
          uo = prepared E password userObject;
          name = text_of (sAMAccountName userObject);
          p1 = validation userObject
      in case addObject E s (''CN='' @ name) (normalizeLocation userLocation) uo of
           (Rejected err, s1) \<Rightarrow> (settle p1 (Rejected (creation_error uo err)), uo, s1)
         | (Resolved r1, s1) \<Rightarrow>
             (case setUserPassword E s1 name password of
                (Rejected err, s2) \<Rightarrow> (settle p1 (Rejected (creation_error uo err)), uo, s2)
              | (Resolved r2, s2) \<Rightarrow>
                  (case enableUser E s2 name of
                     (Rejected err, s3) \<Rightarrow> (settle p1 (Rejected (creation_error uo err)), uo, s3)
                   | (Resolved r3, s3) \<Rightarrow> (settle p1 (Resolved (uo, password)), uo, s3))))"
  unfolding addUser_def validation_def prepared_def Let_def by (simp split del: if_split cong: if_cong prod.case_cong promise.case_cong)

lemma validation_passed:
  "isCorrectEmail (mail userObject) \<Longrightarrow> \<not> blank (sAMAccountName userObject) \<Longrightarrow> validation userObject = None"
  by (simp add: validation_def)


lemma demo_password:
  "createPassword (\<lambda>x. x) (\<lambda>_. 1/2) = [0x3D, 0x35, 0x35, 0x35, 0x46, 0x46, 0x66, 0x66, 0x66]"
  by (simp add: createPassword_def createPassword_from_def getRandomString_def getRandomIndex_def
     char_at_text_def specials_def digits_def letters_def toUpperCase_def upper_unit_def)

text \<open>
  C10. When both validations pass, \<open>addUser\<close> leaves the caller's object with
  \<open>userPassword\<close> set to the SSHA hash of the generated password and \<open>objectClass\<close>
  overwritten with the fixed list, every other property untouched. The promise then
  resolves with that object and the plain password or rejects; it resolves with them
  whenever creating the object, setting the password and enabling the account all succeed.
\<close>

theorem addUser_mutates_and_resolves:
  assumes valid: "isCorrectEmail (mail userObject)" "\<not> blank (sAMAccountName userObject)"
    and run: "addUser E fl rnd s userObject userLocation = (p, userObject', s')"
  shows "userObject' =
           userObject\<lparr>userPassword := Some (ssha_create E (createPassword fl rnd)),
                      objectClass := Some [''top'', ''person'', ''organizationalPerson'', ''user'']\<rparr> \<and>
         (p = Some (Resolved (userObject', createPassword fl rnd)) \<or> (\<exists>err. p = Some (Rejected err))) \<and>
         (\<forall>r1 s1 r2 s2 r3 s3.
            addObject E s (''CN='' @ text_of (sAMAccountName userObject))
              (normalizeLocation userLocation) userObject' = (Resolved r1, s1) \<and>
            setUserPassword E s1 (text_of (sAMAccountName userObject)) (createPassword fl rnd) =
              (Resolved r2, s2) \<and>
            enableUser E s2 (text_of (sAMAccountName userObject)) = (Resolved r3, s3)
            \<longrightarrow> p = Some (Resolved (userObject', createPassword fl rnd)) \<and> s' = s3)"
proof -
  let ?pw = "createPassword fl rnd"
  let ?uo = "prepared E ?pw userObject"
  let ?name = "text_of (sAMAccountName userObject)"
  have v: "validation userObject = None" using valid by (rule validation_passed)
  obtain a s1 where A: "addObject E s (''CN='' @ ?name) (normalizeLocation userLocation) ?uo = (a, s1)"
    by (cases "addObject E s (''CN='' @ ?name) (normalizeLocation userLocation) ?uo")
  obtain b s2 where B: "setUserPassword E s1 ?name ?pw = (b, s2)"
    by (cases "setUserPassword E s1 ?name ?pw")
  obtain c s3 where C: "enableUser E s2 ?name = (c, s3)"
    by (cases "enableUser E s2 ?name")
  have res: "(p, userObject', s') =
        (case a of Rejected err \<Rightarrow> (Some (Rejected (creation_error ?uo err)), ?uo, s1)
         | Resolved r1 \<Rightarrow>
            (case b of Rejected err \<Rightarrow> (Some (Rejected (creation_error ?uo err)), ?uo, s2)
             | Resolved r2 \<Rightarrow>
                (case c of Rejected err \<Rightarrow> (Some (Rejected (creation_error ?uo err)), ?uo, s3)
                 | Resolved r3 \<Rightarrow> (Some (Resolved (?uo, ?pw)), ?uo, s3))))"
    unfolding run [symmetric] addUser_steps Let_def v A
    by (cases a; cases b; cases c) (simp_all add: B C)
  have uo: "userObject' = ?uo"
    using res by (cases a; cases b; cases c) simp_all
  have 1: "userObject' =
           userObject\<lparr>userPassword := Some (ssha_create E ?pw),
                      objectClass := Some [''top'', ''person'', ''organizationalPerson'', ''user'']\<rparr>"
    using uo by (simp add: prepared_def)
  have 2: "p = Some (Resolved (userObject', ?pw)) \<or> (\<exists>err. p = Some (Rejected err))"
    using res uo by (cases a; cases b; cases c) simp_all
  have 3: "\<forall>r1 s1' r2 s2' r3 s3'.
            addObject E s (''CN='' @ ?name) (normalizeLocation userLocation) userObject' = (Resolved r1, s1') \<and>
            setUserPassword E s1' ?name ?pw = (Resolved r2, s2') \<and>
            enableUser E s2' ?name = (Resolved r3, s3')
            \<longrightarrow> p = Some (Resolved (userObject', ?pw)) \<and> s' = s3'"
    using res A B C unfolding uo by auto
  show ?thesis using 1 2 3 by blast
qed

theorem addUser_mutates_and_resolves_witness:
  "isCorrectEmail (mail demo_user) \<and> \<not> blank (sAMAccountName demo_user) \<and>
   (\<exists>p userObject' s'.
      addUser demo_env (\<lambda>x. x) (\<lambda>_. 1/2) empty_state demo_user None = (p, userObject', s') \<and>
      userObject' = demo_user\<lparr>userPassword := Some ''{SSHA256}#########'',
                      objectClass := Some [''top'', ''person'', ''organizationalPerson'', ''user'']\<rparr> \<and>
      p = Some (Resolved (userObject', [0x3D, 0x35, 0x35, 0x35, 0x46, 0x46, 0x66, 0x66, 0x66])))"
proof -
  let ?run = "addUser demo_env (\<lambda>x. x) (\<lambda>_. 1/2) empty_state demo_user None"
  let ?uo = "demo_user\<lparr>userPassword := Some ''{SSHA256}#########'',
               objectClass := Some [''top'', ''person'', ''organizationalPerson'', ''user'']\<rparr>"
  let ?pw = "[0x3D, 0x35, 0x35, 0x35, 0x46, 0x46, 0x66, 0x66, 0x66] :: ustring"
  have v1: "isCorrectEmail (mail demo_user)" by code_simp
  have v2: "\<not> blank (sAMAccountName demo_user)" by code_simp
  have p: "fst ?run = Some (Resolved (?uo, ?pw))" by code_simp
  have run: "?run = (fst ?run, fst (snd ?run), snd (snd ?run))" by simp
  have "fst (snd ?run) = demo_user\<lparr>userPassword := Some (ssha_create demo_env (createPassword (\<lambda>x. x) (\<lambda>_. 1/2))),
                      objectClass := Some [''top'', ''person'', ''organizationalPerson'', ''user'']\<rparr>"
    using addUser_mutates_and_resolves [OF v1 v2 run] by blast
  also have "\<dots> = ?uo" by (simp add: demo_password demo_env_def)
  finally have uo: "fst (snd ?run) = ?uo" .
  show ?thesis using v1 v2 run p uo by metis
qed

lemma addUser_always_creates:
  "\<exists>rest. calls (snd (snd (addUser E fl rnd s userObject userLocation))) =
     calls s @ AddObject (''CN='' @ text_of (sAMAccountName userObject)) (normalizeLocation userLocation)
       (prepared E (createPassword fl rnd) userObject) # rest"
proof -
  let ?pw = "createPassword fl rnd"
  let ?uo = "prepared E ?pw userObject"
  let ?name = "text_of (sAMAccountName userObject)"
  obtain a s1 where A: "addObject E s (''CN='' @ ?name) (normalizeLocation userLocation) ?uo = (a, s1)"
    by (cases "addObject E s (''CN='' @ ?name) (normalizeLocation userLocation) ?uo")
  obtain b s2 where B: "setUserPassword E s1 ?name ?pw = (b, s2)"
    by (cases "setUserPassword E s1 ?name ?pw")
  obtain c s3 where C: "enableUser E s2 ?name = (c, s3)"
    by (cases "enableUser E s2 ?name")
  have c1: "calls s1 = calls s @ [AddObject (''CN='' @ ?name) (normalizeLocation userLocation) ?uo]"
    using A by (auto simp: addObject_def Let_def split: sum.splits)
  have c2: "\<exists>r. calls s2 = calls s1 @ r"
    using B by (auto simp: setUserPassword_def userReplaceOperation_def Let_def split: sum.splits if_splits)
  have c3: "\<exists>r. calls s3 = calls s2 @ r"
    using C by (auto simp: enableUser_def userReplaceOperation_def Let_def split: sum.splits)
  have "snd (snd (addUser E fl rnd s userObject userLocation)) \<in> {s1, s2, s3}"
    unfolding addUser_steps Let_def A
    by (cases a; cases b; cases c) (simp_all add: B C)
  then show ?thesis using c1 c2 c3 by auto
qed

lemma addUser_rejects_invalid_email:
  "\<not> isCorrectEmail (mail userObject) \<Longrightarrow>
   fst (addUser E fl rnd s userObject userLocation) =
     Some (Rejected (Text (''Incorrect email address: '' @ text_of (mail userObject))))"
proof -
  assume "\<not> isCorrectEmail (mail userObject)"
  then have v: "validation userObject =
      Some (Rejected (Text (''Incorrect email address: '' @ text_of (mail userObject))))"
    by (simp add: validation_def Let_def)
  show ?thesis
    unfolding addUser_steps Let_def v
    by (simp split: prod.splits promise.splits)
qed

text \<open>
  C4 (the claim: a failed validation rejects and no directory call is made). The
  validations reject without returning. Evaluated on a \<open>mail\<close> that is not an address: the
  promise is rejected with the validation error, and the object is created, its password
  set and the account enabled all the same.
\<close>

theorem addUser_invalid_email_still_creates:
  "(let (p, userObject', s') =
          addUser demo_env (\<lambda>x. x) (\<lambda>_. 1/2) empty_state
            \<lparr>mail = Some ''not-an-email'', sAMAccountName = Some ''bob'', userPassword = None,
             objectClass = None, other = []\<rparr> None
    in (p, calls s')) =
   (Some (Rejected (Text ''Incorrect email address: not-an-email'')),
    [AddObject ''CN=bob'' ''CN=Users,''
       \<lparr>mail = Some ''not-an-email'', sAMAccountName = Some ''bob'',
        userPassword = Some ''{SSHA256}#########'',
        objectClass = Some [''top'', ''person'', ''organizationalPerson'', ''user''], other = []\<rparr>,
     Replace ''bob'' (''unicodePwd'', PStr ''*********''),
     Replace ''bob'' (''userAccountControl'', PNum 512)])"
  by code_simp

section \<open>\<open>findUser\<close>: results\<close>

lemma split_from_single:
  "split_from [c] cur s =
     (cur @ takeWhile (\<lambda>x. x \<noteq> c) s) #
       (case dropWhile (\<lambda>x. x \<noteq> c) s of [] \<Rightarrow> [] | _ # rest \<Rightarrow> split_from [c] [] rest)"
  by (induction s arbitrary: cur) simp_all

lemma first_piece: "js_first (js_split [c] s) = Some (takeWhile (\<lambda>x. x \<noteq> c) s)"
  unfolding js_split_def by (subst split_from_single) (simp add: js_first_def)

lemma stripped_name:
  "(if CHR ''@'' \<in> set userName then text_of (js_first (js_split ''@'' userName)) else userName) =
     lookup_key userName"
proof (cases "CHR ''@'' \<in> set userName")
  case True
  then show ?thesis by (simp add: first_piece text_of_def lookup_key_def)
next
  case False
  then have "\<forall>x\<in>set userName. x \<noteq> CHR ''@''" by auto
  then have tw: "takeWhile (\<lambda>c. c \<noteq> CHR ''@'') userName = userName"
    by (simp only: takeWhile_eq_all_conv)
  show ?thesis unfolding lookup_key_def tw using False by simp
qed

lemma lookup_key_bare: "CHR ''@'' \<notin> set userName \<Longrightarrow> lookup_key userName = userName"
  using stripped_name [of userName] by simp

lemma lookup_key_differs: "CHR ''@'' \<in> set userName \<Longrightarrow> lookup_key userName \<noteq> userName"
proof
  assume a: "CHR ''@'' \<in> set userName" and "lookup_key userName = userName"
  then have "takeWhile (\<lambda>c. c \<noteq> CHR ''@'') userName = userName"
    by (simp only: lookup_key_def)
  then have "\<forall>x\<in>set userName. x \<noteq> CHR ''@''"
    by (simp only: takeWhile_eq_all_conv)
  with a show False by blast
qed

lemma findUser_hit:
  "users s userName = Some cached \<Longrightarrow>
   findUser E s userName opts = (Resolved (js_first (processResults E opts [cached])), s)"
  by (simp add: findUser_def cache_get_def)

lemma findUser_miss:
  assumes "users s userName = None"
  shows "findUser E s userName opts =
     (let key = lookup_key userName;
          s1 = sent (Find (user_filter E key)) s
      in case ad_find E (calls s) (user_filter E key) of
           Inl err \<Rightarrow> (Rejected err, s1)
         | Inr None \<Rightarrow> (Resolved (Some []), cache_set key [] s1)
         | Inr (Some []) \<Rightarrow> (Resolved (Some []), cache_set key [] s1)
         | Inr (Some (first # rest)) \<Rightarrow>
             (Resolved (js_first (processResults E opts (first # rest))), cache_set key first s1))"
  unfolding findUser_def cache_get_def assms stripped_name Let_def user_filter_def
  by (simp split: sum.splits option.splits list.splits)

lemma findUser_miss_state:
  assumes "users s userName = None" and "findUser E s userName opts = (r, s1)"
  shows "calls s1 = calls s @ [Find (user_filter E (lookup_key userName))]"
    and "\<forall>k. k \<noteq> lookup_key userName \<longrightarrow> users s1 k = users s k"
    and "(\<exists>v. r = Resolved v) \<longrightarrow> (\<exists>c. users s1 (lookup_key userName) = Some c)"
  using assms(2) unfolding findUser_miss [OF assms(1)] Let_def
  by (auto split: sum.splits option.splits list.splits)

lemma findUser_domain_form_never_cached:
  assumes at: "CHR ''@'' \<in> set userName" and miss: "users s userName = None"
    and run: "findUser E s userName opts = (r, s1)"
  shows "users s1 userName = None \<and>
         calls (snd (findUser E s1 userName opts')) =
           calls s @ [Find (user_filter E (lookup_key userName)), Find (user_filter E (lookup_key userName))]"
proof -
  have u1: "users s1 userName = None"
    using findUser_miss_state(2) [OF miss run] lookup_key_differs [OF at] miss by metis
  obtain r2 s2 where run2: "findUser E s1 userName opts' = (r2, s2)"
    by (cases "findUser E s1 userName opts'")
  show ?thesis
    using u1 findUser_miss_state(1) [OF miss run] findUser_miss_state(1) [OF u1 run2] run2
    by simp
qed

lemma findUser_bare_name_cached:
  assumes bare: "CHR ''@'' \<notin> set userName" and miss: "users s userName = None"
    and run: "findUser E s userName opts = (Resolved v, s1)"
  shows "\<exists>c. users s1 userName = Some c \<and>
             findUser E s1 userName opts' = (Resolved (js_first (processResults E opts' [c])), s1)"
proof -
  obtain c where "users s1 userName = Some c"
    using findUser_miss_state(3) [OF miss run] lookup_key_bare [OF bare] by auto
  then show ?thesis using findUser_hit by blast
qed

text \<open>
  C2 (the claim: a second \<open>findUser(U)\<close> does not reach the directory, for bare and
  \<open>user@domain\<close> names alike). The cache is read under the name as given and written under
  the name cut at \<open>@\<close>. Evaluated on \<open>bob@corp.com\<close> with an empty cache: the record is stored
  under \<open>bob\<close>, nothing is stored under \<open>bob@corp.com\<close>, and the second call sends the same
  search again. \<open>findUser_domain_form_never_cached\<close> shows this for every name with an
  \<open>@\<close>; \<open>findUser_bare_name_cached\<close> shows that a bare name is served from the cache.
\<close>

theorem findUser_domain_form_queries_twice:
  "(let (r1, s1) = findUser demo_env empty_state ''bob@corp.com'' None;
        (r2, s2) = findUser demo_env s1 ''bob@corp.com'' None
    in (calls s1, calls s2, users s1 ''bob'', users s1 ''bob@corp.com'')) =
   ([Find bob_filter], [Find bob_filter, Find bob_filter], Some (bob_record []), None)"
  by code_simp

section \<open>\<open>moveUser\<close> and \<open>authenticateUser\<close>: results\<close>

lemma modifyDN_calls:
  "modifyDN E s oldDN newDN = (r, s1) \<Longrightarrow>
     calls s1 = calls s @ [ModifyDN oldDN newDN] \<and> users s1 = users s"
  by (auto simp: modifyDN_def Let_def split: sum.splits)

lemma moveUser_empty_record:
  assumes "findUser E s userName None = (Resolved (Some []), s1)"
  shows "moveUser E s userName location =
           (case modifyDN E s1 None
                   (''CN=undefined,'' @ parseLocation E location @ replace_all ''dc='' ''DC='' (baseDN E)) of
              (Rejected err, s2) \<Rightarrow> (Rejected err, s2)
            | (Resolved result, s2) \<Rightarrow> (Resolved result, cache_delete userName s2))"
  by (simp add: moveUser_def Let_def assms text_of_def)

lemma moveUser_empty_record_renames:
  assumes "findUser E s userName None = (Resolved (Some []), s1)"
  shows "calls (snd (moveUser E s userName location)) =
           calls s1 @ [ModifyDN None (''CN=undefined,'' @ parseLocation E location @
                                        replace_all ''dc='' ''DC='' (baseDN E))]"
proof -
  let ?n = "''CN=undefined,'' @ parseLocation E location @ replace_all ''dc='' ''DC='' (baseDN E)"
  obtain r s2 where m: "modifyDN E s1 None ?n = (r, s2)" by (cases "modifyDN E s1 None ?n")
  have "calls s2 = calls s1 @ [ModifyDN None ?n]" using modifyDN_calls [OF m] by simp
  then show ?thesis
    unfolding moveUser_empty_record [OF assms] m by (cases r) simp_all
qed

lemma getUserLocation_empty_record:
  assumes "findUser E s userName None = (Resolved (Some []), s1)"
  shows "getUserLocation E s userName = (Rejected not_exist_error, s1)"
  by (simp add: getUserLocation_def assms)

lemma authenticateUser_cases:
  assumes "ad_authenticate E (calls s) (userName @ ''@'' @ domain E) pass = (error, authorized)"
  shows "fst (authenticateUser E s userName pass) =
     (case error of
        None \<Rightarrow> AuthResolved authorized
      | Some e \<Rightarrow>
          if truthy (lde_message e)
          then (case authorized of
                  AUndefined \<Rightarrow> AuthThrew
                | ABool b \<Rightarrow> AuthResolved (ABool b)
                | AObj ps \<Rightarrow>
                    AuthResolved (AObj (set_prop ''message''
                       (text_of (js_first (js_split '':'' (text_of (stack e)))))
                       (set_prop ''detail'' (text_of (lde_message e)) ps))))
          else AuthRejected (Obj e))"
  using assms
  by (cases authorized) (simp_all add: authenticateUser_def Let_def split: option.splits)

text \<open>
  C3 (the claim: for a user the directory does not have, \<open>moveUser\<close> rejects with the
  error \<open>User does not exist\<close> and never renames). \<open>moveUser\<close> does not look at the record
  before using it, unlike \<open>getUserLocation\<close> (\<open>getUserLocation_empty_record\<close>). Evaluated
  on the unknown user \<open>ghost\<close>: the rename is sent, from the DN \<open>undefined\<close> to
  \<open>CN=undefined,\<dots>\<close>, and the promise is rejected with the directory's error for it.
  \<open>moveUser_empty_record_renames\<close> shows the rename is sent for every empty record.
\<close>

theorem moveUser_missing_user_renames:
  "(let (r, s) = moveUser demo_env empty_state ''ghost'' ''OU=Sales'' in (r, calls s)) =
   (Rejected (Obj (plain_error ''NoSuchObjectError'')),
    [Find ''(|(userPrincipalName=ghost@corp.com)(sAMAccountName=ghost))'',
     ModifyDN None ''CN=undefined,OU=Sales,DC=corp,DC=com''])"
  by code_simp

text \<open>
  C5 (the claim: on an error with an \<open>lde_message\<close> the promise resolves with a result
  object carrying the error's detail and message). The client reports refused credentials
  as the error together with the result \<open>false\<close>; the two assignments to a boolean do
  nothing, so the promise resolves with the bare \<open>false\<close>. \<open>authenticateUser_cases\<close> gives
  the outcome in every case: the annotation is there only when the client's result is an
  object.
\<close>

theorem authenticateUser_refused_unannotated:
  "(let (r, s) = authenticateUser demo_env empty_state ''bob'' ''wrong'' in (r, calls s)) =
     (AuthResolved (ABool False), [Authenticate ''bob@corp.com'' ''wrong''])"
  by code_simp

section \<open>Cache invalidation: results\<close>

lemma setUserCN_resolved_deletes:
  "setUserCN E s userName cn = (Resolved r, s') \<Longrightarrow> users s' userName = None"
  by (auto simp: setUserCN_def Let_def split: prod.splits promise.splits option.splits)

lemma moveUser_resolved_deletes:
  "moveUser E s userName location = (Resolved r, s') \<Longrightarrow> users s' userName = None"
  by (auto simp: moveUser_def Let_def split: prod.splits promise.splits option.splits)

lemma userReplaceOperation_resolved_deletes:
  "userReplaceOperation E s userName operation = (Resolved r, s') \<Longrightarrow> users s' userName = None"
  by (auto simp: userReplaceOperation_def Let_def split: sum.splits)

lemma replace_operations_resolved_delete:
  "setUserPassword E s userName pass = (Resolved r, s') \<Longrightarrow> users s' userName = None"
  "setUserPasswordNeverExpires E s userName = (Resolved r, s') \<Longrightarrow> users s' userName = None"
  "enableUser E s userName = (Resolved r, s') \<Longrightarrow> users s' userName = None"
  "disableUser E s userName = (Resolved r, s') \<Longrightarrow> users s' userName = None"
  "unlockUser E s userName = (Resolved r, s') \<Longrightarrow> users s' userName = None"
  "setUserProperty E s userName operation = (Resolved r, s') \<Longrightarrow> users s' userName = None"
  by (auto simp: setUserPassword_def setUserPasswordNeverExpires_def enableUser_def
      disableUser_def unlockUser_def setUserProperty_def
      dest: userReplaceOperation_resolved_deletes split: if_splits)

lemma go_resolved_deletes:
  "go E userName s currUserName operations = (Resolved r, s') \<Longrightarrow> users s' userName = None"
proof (induction E userName s currUserName operations rule: go.induct)
  case (1 E userName s currUserName operations)
  show ?case
  proof (cases "length operations < 1")
    case True
    with "1.prems" show ?thesis by (subst (asm) go.simps) auto
  next
    case False
    obtain w s1 where w: "setUserProperty E s currUserName (last operations) = (w, s1)"
      by (cases "setUserProperty E s currUserName (last operations)")
    show ?thesis
    proof (cases w)
      case (Rejected err)
      with "1.prems" False w show ?thesis by (subst (asm) go.simps) simp
    next
      case (Resolved res)
      let ?c = "if fst (last operations) = ''userPrincipalName''
                then pval_text (snd (last operations)) else currUserName"
      have "go E userName (cache_delete ?c s1) ?c (butlast operations) = (Resolved r, s')"
        using "1.prems" False w Resolved by (subst (asm) go.simps) (simp add: Let_def)
      then show ?thesis
        using "1.IH" [OF False w [symmetric] Resolved refl] by simp
    qed
  qed
qed

lemma updateUser_prelude:
  "updateUser E s userName opts =
     (case prelude E s userName opts of
        (Rejected err, s') \<Rightarrow> (Rejected err, s')
      | (Resolved u, s4) \<Rightarrow> go E userName s4 userName (collect_operations E opts))"
  unfolding updateUser_def prelude_def Let_def
  by (simp split: prod.split promise.split)

lemma updateUser_resolved_deletes:
  assumes "updateUser E s userName opts = (Resolved r, s')"
  shows "users s' userName = None"
proof -
  obtain p s4 where p: "prelude E s userName opts = (p, s4)"
    by (cases "prelude E s userName opts")
  show ?thesis
  proof (cases p)
    case (Rejected err)
    with assms p show ?thesis by (simp add: updateUser_prelude)
  next
    case (Resolved u)
    with assms p have "go E userName s4 userName (collect_operations E opts) = (Resolved r, s')"
      by (simp add: updateUser_prelude)
    then show ?thesis by (rule go_resolved_deletes)
  qed
qed

text \<open>
  C1 (the claim: a successful mutation of \<open>U\<close> removes the cache entry of \<open>U\<close>'s lookup
  key before its promise resolves). Each operation deletes the entry under the name as
  given (\<open>setUserCN_resolved_deletes\<close>, \<open>moveUser_resolved_deletes\<close>,
  \<open>updateUser_resolved_deletes\<close>, and \<open>replace_operations_resolved_delete\<close> for the
  writes that go through the attribute-replace operation), which is the lookup key only for
  a bare name. Evaluated on \<open>setUserCN\<close> for \<open>bob@corp.com\<close>: the rename succeeds, the
  record stored under \<open>bob\<close> stays, and a following \<open>findUser\<close> for \<open>bob\<close> returns the old
  distinguished name without asking the directory, which by then answers with the new one.
\<close>

theorem setUserCN_domain_form_keeps_stale_entry:
  "(let (r1, s1) = setUserCN demo_env empty_state ''bob@corp.com'' ''Bobby'';
        (r2, s2) = findUser demo_env s1 ''bob'' None
    in (r1, users s1 ''bob'', r2, calls s2, ad_find demo_env (calls s2) bob_filter)) =
   (Resolved ''ok'',
    Some [(''dn'', ''CN=Bob,OU=Sales,DC=corp,DC=com''), (''cn'', ''Bob''), (''sAMAccountName'', ''bob'')],
    Resolved (Some [(''dn'', ''CN=Bob,OU=Sales,DC=corp,DC=com''), (''cn'', ''Bob''),
                    (''sAMAccountName'', ''bob'')]),
    [Find bob_filter,
     ModifyDN (Some ''CN=Bob,OU=Sales,DC=corp,DC=com'') ''CN=Bobby,OU=Sales,DC=corp,DC=com''],
    Inr (Some [[(''dn'', ''CN=Bobby,OU=Sales,DC=corp,DC=com''), (''cn'', ''Bob''),
                (''sAMAccountName'', ''bob'')]]))"
  by code_simp

section \<open>\<open>updateUser\<close>: results\<close>


lemma length_names_from [simp]: "length (names_from cur ws) = length ws"
  by (induction ws arbitrary: cur) simp_all

lemma requests_Nil [simp]: "requests cur [] = []"
  by (simp add: requests_def)


lemma length_requests [simp]: "length (requests cur ws) = length ws"
  by (simp add: requests_def)









declare begin_states.simps(2) [simp del] writes_in_order.simps(2) [simp del]

lemma begin_states_first [simp]: "begin_states E s cur (w # ws) ! 0 = s"
  by (simp add: begin_states.simps(2))









section \<open>\<open>getUserLocation\<close>: results\<close>

































end
